theory Spec2Isabelle
  imports Main "HOL-Library.Word"
begin

section \<open>Data model of the background layer\<close>

text \<open>
  The source is the class template \<open>SMLayerBackground<RGB, optionFlags>\<close> of
  \<^verbatim>\<open>Layer_Background_Impl.h\<close>. The template parameter \<open>RGB\<close> is one of the two
  pixel structs \<open>rgb24\<close> (three \<open>uint8_t\<close> channels) and \<open>rgb48\<close> (three
  \<open>uint16_t\<close> channels). The state is polymorphic in the pixel type \<open>'p\<close>; the
  functions that look into a pixel are polymorphic in the channel width \<open>'a\<close>, so that
  \<open>RGB\<close> is \<open>'a word rgb\<close> with \<open>'a = 8\<close> or \<open>'a = 16\<close>.
\<close>

record 'c rgb =
  red :: 'c
  green :: 'c
  blue :: 'c

type_synonym rgb24 = "8 word rgb"
type_synonym rgb48 = "16 word rgb"

datatype rotationDegrees = rotation0 | rotation90 | rotation180 | rotation270

text \<open>
  An access outside an array is undefined behaviour in C++; the model makes it a value.
\<close>

datatype error = OutOfBounds

text \<open>
  The object. Pixel storage is an explicit store \<open>memory\<close> from pixel addresses to
  pixels, and every \<open>RGB *\<close> is an address in it, so that pointer arithmetic
  (\<open>buffer + width * height\<close>, \<open>ptr + hardwareY * matrixWidth\<close>) and the aliasing of
  the pointer variables with the two buffers are as in the source. Each frame buffer
  is the range of \<open>matrixWidth * matrixHeight\<close> addresses from its base.

  The fields \<open>matrixWidth\<close>, \<open>matrixHeight\<close>, \<open>localWidth\<close>, \<open>localHeight\<close>,
  \<open>layerRotation\<close> and \<open>ccEnabled\<close> are inherited members, and
  \<open>chromaKeyEnabled\<close>, \<open>chromaKeyColor\<close>, \<open>firstOverlayLine\<close>,
  \<open>lastOverlayLine\<close> are what \<open>isChromaKeyEnabled()\<close>, \<open>getChromaKeyColor()\<close> and
  the two line members read; their declarations are outside this file, so they are
  plain fields of the state here. The table behind the pointer
  \<open>backgroundColorCorrectionLUT\<close> is a list of 16-bit entries with the length it was
  allocated with. The members \<open>font\<close> and the brightness-shift bookkeeping are left
  out: no function modelled below reads them.
\<close>

record 'p layer =
  matrixWidth :: nat
  matrixHeight :: nat
  localWidth :: nat
  localHeight :: nat
  layerRotation :: rotationDegrees
  ccEnabled :: bool
  backgroundBuffers :: "nat \<times> nat"
  backgroundColorCorrectionLUT :: "16 word list"
  currentDrawBuffer :: nat
  currentRefreshBuffer :: nat
  swapPending :: bool
  currentDrawBufferPtr :: nat
  currentRefreshBufferPtr :: nat
  backgroundBrightness :: "8 word"
  chromaKeyEnabled :: bool
  chromaKeyColor :: 'p
  firstOverlayLine :: int
  lastOverlayLine :: int
  memory :: "nat \<Rightarrow> 'p"

text \<open>
  \<open>backgroundBuffers[i]\<close>: the array has the two elements 0 and 1. An index of 2 or
  more is outside the array; the role invariant below excludes it.
\<close>

definition bufferAt :: "'p layer \<Rightarrow> nat \<Rightarrow> nat" where
  "bufferAt s i = (if i = 0 then fst (backgroundBuffers s) else snd (backgroundBuffers s))"

definition bufferSize :: "'p layer \<Rightarrow> nat" where
  "bufferSize s = matrixWidth s * matrixHeight s"

section \<open>Construction and \<open>begin\<close>\<close>

text \<open>
  The constructor for buffers allocated outside of the class: one block of
  \<open>2 * width * height\<close> pixels at \<open>buffer\<close>, the second frame buffer directly after
  the first. The other members keep whatever the object held.
\<close>

definition SMLayerBackground ::
  "nat \<Rightarrow> nat \<Rightarrow> nat \<Rightarrow> 16 word list \<Rightarrow> 'p layer \<Rightarrow> 'p layer" where
  "SMLayerBackground buffer width height colorCorrectionLUT s =
     s\<lparr>backgroundBuffers := (buffer, buffer + width * height),
       backgroundColorCorrectionLUT := colorCorrectionLUT,
       matrixWidth := width,
       matrixHeight := height\<rparr>"

text \<open>
  \<open>sizeof(RGB)\<close>, and the number of table entries \<open>begin\<close> allocates
  (\<open>sizeof(RGB) <= 3 ? 256 : 4096\<close>).
\<close>

definition sizeofRGB :: "'a::len itself \<Rightarrow> nat" where
  "sizeofRGB t = 3 * (LENGTH('a) div 8)"

definition lutEntries :: "'a::len itself \<Rightarrow> nat" where
  "lutEntries t = (if sizeofRGB t \<le> 3 then 256 else 4096)"

text \<open>
  \<open>begin()\<close>, as compiled without \<open>ESP32\<close> (the allocation block is inside
  \<open>#if defined(ESP32)\<close>; the buffers then come from the constructor). The name
  \<open>begin\<close> is a keyword of the theory language, hence \<open>beginLayer\<close>.
\<close>

definition beginLayer :: "'p layer \<Rightarrow> 'p layer" where
  "beginLayer s =
     s\<lparr>currentDrawBuffer := 0,
       currentRefreshBuffer := 1,
       swapPending := False,
       currentDrawBufferPtr := bufferAt s 0,
       currentRefreshBufferPtr := bufferAt s 1\<rparr>"

section \<open>Swap controller\<close>

definition isSwapPending :: "'p layer \<Rightarrow> bool" where
  "isSwapPending s = swapPending s"

definition handleBufferSwap :: "'p layer \<Rightarrow> 'p layer" where
  "handleBufferSwap s =
     (if \<not> swapPending s then s
      else
        let newDrawBuffer = currentRefreshBuffer s;
            s1 = s\<lparr>currentRefreshBuffer := currentDrawBuffer s\<rparr>;
            s2 = s1\<lparr>currentDrawBuffer := newDrawBuffer\<rparr>;
            s3 = s2\<lparr>currentRefreshBufferPtr := bufferAt s2 (currentRefreshBuffer s2)\<rparr>;
            s4 = s3\<lparr>currentDrawBufferPtr := bufferAt s3 (currentDrawBuffer s3)\<rparr>
        in s4\<lparr>swapPending := False\<rparr>)"

text \<open>
  \<open>while (swapPending);\<close> The application spins; the only code that clears the flag
  is \<open>handleBufferSwap\<close>, called from the refresh interrupt
  (\<open>frameRefreshCallback\<close>). The loop is modelled with the interrupt made explicit:
  while the flag is set, the interrupt runs and the flag is polled again. The
  recalculation of the table that \<open>frameRefreshCallback\<close> does after
  \<open>handleBufferSwap\<close> (by functions outside this file) changes neither the swap
  state nor the pixel store and is left out.
\<close>

function waitWhileSwapPending :: "'p layer \<Rightarrow> 'p layer" where
  "waitWhileSwapPending s =
     (if swapPending s then waitWhileSwapPending (handleBufferSwap s) else s)"
  by pat_completeness auto
termination
  by (relation "measure (\<lambda>s. if swapPending s then 1 else 0)")
     (auto simp: handleBufferSwap_def Let_def)

declare waitWhileSwapPending.simps [simp del]

text \<open>\<open>memcpy(dst, src, n)\<close> on the pixel store, \<open>n\<close> counted in pixels.\<close>

definition memcpy :: "nat \<Rightarrow> nat \<Rightarrow> nat \<Rightarrow> (nat \<Rightarrow> 'p) \<Rightarrow> (nat \<Rightarrow> 'p)" where
  "memcpy dst src n m = (\<lambda>a. if dst \<le> a \<and> a < dst + n then m (src + (a - dst)) else m a)"

definition swapBuffers :: "bool \<Rightarrow> 'p layer \<Rightarrow> 'p layer" where
  "swapBuffers copy s =
     (let s1 = waitWhileSwapPending s;
          s2 = s1\<lparr>swapPending := True\<rparr>
      in if copy then
           (let s3 = waitWhileSwapPending s2
            in if currentDrawBuffer s3 \<noteq> 0
               then s3\<lparr>memory := memcpy (bufferAt s3 1) (bufferAt s3 0) (bufferSize s3) (memory s3)\<rparr>
               else s3\<lparr>memory := memcpy (bufferAt s3 0) (bufferAt s3 1) (bufferSize s3) (memory s3)\<rparr>)
         else s2)"

definition copyRefreshToDrawing :: "'p layer \<Rightarrow> 'p layer" where
  "copyRefreshToDrawing s =
     s\<lparr>memory := memcpy (currentDrawBufferPtr s) (currentRefreshBufferPtr s) (bufferSize s) (memory s)\<rparr>"

definition backBuffer :: "'p layer \<Rightarrow> nat" where
  "backBuffer s = currentDrawBufferPtr s"

definition setBackBuffer :: "nat \<Rightarrow> 'p layer \<Rightarrow> 'p layer" where
  "setBackBuffer newBuffer s = s\<lparr>currentDrawBufferPtr := newBuffer\<rparr>"

definition getRealBackBuffer :: "'p layer \<Rightarrow> nat" where
  "getRealBackBuffer s = bufferAt s (currentDrawBuffer s)"

definition getCurrentRefreshRow :: "'p layer \<Rightarrow> nat \<Rightarrow> nat" where
  "getCurrentRefreshRow s y = currentRefreshBufferPtr s + y * matrixWidth s"

text \<open>
  The role assignment: the two roles are held by different indices of the two-element
  array.
\<close>

definition roleInvariant :: "'p layer \<Rightarrow> bool" where
  "roleInvariant s =
     (currentDrawBuffer s < 2 \<and> currentRefreshBuffer s < 2 \<and>
      currentDrawBuffer s \<noteq> currentRefreshBuffer s)"

text \<open>The calls of the swap protocol, and a sequence of them run in order.\<close>

datatype swapCall = SwapBuffers bool | HandleBufferSwap

fun runCall :: "swapCall \<Rightarrow> 'p layer \<Rightarrow> 'p layer" where
  "runCall (SwapBuffers copy) s = swapBuffers copy s"
| "runCall HandleBufferSwap s = handleBufferSwap s"

fun runCalls :: "swapCall list \<Rightarrow> 'p layer \<Rightarrow> 'p layer" where
  "runCalls [] s = s"
| "runCalls (c # cs) s = runCalls cs (runCall c s)"

text \<open>The two frame buffers do not overlap in the store.\<close>

definition buffersDisjoint :: "'p layer \<Rightarrow> bool" where
  "buffersDisjoint s =
     (bufferAt s 0 + bufferSize s \<le> bufferAt s 1 \<or> bufferAt s 1 + bufferSize s \<le> bufferAt s 0)"

section \<open>Pixel access and the rotation mapping\<close>

text \<open>
  Conversions of an \<open>int\<close> to the 16-bit parameter types, with the wrap-around
  written out.
\<close>

definition to_int16 :: "int \<Rightarrow> int" where
  "to_int16 v = (v + 32768) mod 65536 - 32768"

definition to_uint16 :: "int \<Rightarrow> int" where
  "to_uint16 v = v mod 65536"

text \<open>
  \<open>currentDrawBufferPtr[(hwy * matrixWidth) + hwx]\<close> with \<open>int16_t hwx, hwy\<close>. The
  element must lie inside the frame buffer of \<open>matrixWidth * matrixHeight\<close> pixels.
\<close>

definition loadPixelToDrawBuffer :: "'p layer \<Rightarrow> int \<Rightarrow> int \<Rightarrow> 'p \<Rightarrow> error + 'p layer" where
  "loadPixelToDrawBuffer s hwx hwy color =
     (let i = to_int16 hwy * int (matrixWidth s) + to_int16 hwx
      in if 0 \<le> i \<and> i < int (bufferSize s)
         then Inr (s\<lparr>memory := (memory s)(currentDrawBufferPtr s + nat i := color)\<rparr>)
         else Inl OutOfBounds)"

definition readPixelFromDrawBuffer :: "'p layer \<Rightarrow> int \<Rightarrow> int \<Rightarrow> error + 'p" where
  "readPixelFromDrawBuffer s hwx hwy =
     (let i = to_int16 hwy * int (matrixWidth s) + to_int16 hwx
      in if 0 \<le> i \<and> i < int (bufferSize s)
         then Inr (memory s (currentDrawBufferPtr s + nat i))
         else Inl OutOfBounds)"

text \<open>The coordinates \<open>x\<close>, \<open>y\<close> are the values of the \<open>int16_t\<close> parameters.\<close>

definition drawPixel :: "'p layer \<Rightarrow> int \<Rightarrow> int \<Rightarrow> 'p \<Rightarrow> error + 'p layer" where
  "drawPixel s x y color =
     (if x < 0 \<or> y < 0 \<or> x \<ge> int (localWidth s) \<or> y \<ge> int (localHeight s) then Inr s
      else
        let (hwx, hwy) =
          (if layerRotation s = rotation0 then (x, y)
           else if layerRotation s = rotation180
             then ((int (matrixWidth s) - 1) - x, (int (matrixHeight s) - 1) - y)
           else if layerRotation s = rotation90
             then ((int (matrixWidth s) - 1) - y, x)
           else (y, (int (matrixHeight s) - 1) - x))
        in loadPixelToDrawBuffer s hwx hwy color)"

definition readPixel :: "('a::len) word rgb layer \<Rightarrow> int \<Rightarrow> int \<Rightarrow> error + 'a word rgb" where
  "readPixel s x y =
     (if x < 0 \<or> y < 0 \<or> x \<ge> int (localWidth s) \<or> y \<ge> int (localHeight s)
      then Inr \<lparr>red = 0, green = 0, blue = 0\<rparr>
      else
        let (hwx, hwy) =
          (if layerRotation s = rotation0 then (x, y)
           else if layerRotation s = rotation180
             then ((int (matrixWidth s) - 1) - x, (int (matrixHeight s) - 1) - y)
           else if layerRotation s = rotation90
             then ((int (matrixWidth s) - 1) - y, x)
           else (y, (int (matrixHeight s) - 1) - x))
        in readPixelFromDrawBuffer s hwx hwy)"

text \<open>
  A counted loop \<open>for (i = first; i <= last; i++)\<close> runs its body over \<open>[first..last]\<close>
  and stops at the first failing access.
\<close>

fun forEach :: "int list \<Rightarrow> (int \<Rightarrow> 's \<Rightarrow> error + 's) \<Rightarrow> 's \<Rightarrow> error + 's" where
  "forEach [] body s = Inr s"
| "forEach (i # is) body s =
     (case body i s of Inl e \<Rightarrow> Inl e | Inr s' \<Rightarrow> forEach is body s')"

text \<open>The parameters \<open>x0\<close>, \<open>x1\<close>, \<open>y\<close> of the two hardware lines are \<open>uint16_t\<close>.\<close>

definition drawHardwareHLine :: "'p layer \<Rightarrow> int \<Rightarrow> int \<Rightarrow> int \<Rightarrow> 'p \<Rightarrow> error + 'p layer" where
  "drawHardwareHLine s x0 x1 y color =
     forEach [to_uint16 x0 .. to_uint16 x1]
       (\<lambda>i s'. loadPixelToDrawBuffer s' i (to_uint16 y) color) s"

definition drawHardwareVLine :: "'p layer \<Rightarrow> int \<Rightarrow> int \<Rightarrow> int \<Rightarrow> 'p \<Rightarrow> error + 'p layer" where
  "drawHardwareVLine s x y0 y1 color =
     forEach [to_uint16 y0 .. to_uint16 y1]
       (\<lambda>i s'. loadPixelToDrawBuffer s' (to_uint16 x) i color) s"

text \<open>
  \<open>SWAPint(a, b)\<close> is a macro defined outside this file; by the comment at its use
  (``make sure line goes from x0 to x1'') it exchanges the two variables. The
  assignment \<open>x1 = localWidth - 1\<close> stores an \<open>int\<close> in an \<open>int16_t\<close>.
\<close>

definition drawFastHLine :: "'p layer \<Rightarrow> int \<Rightarrow> int \<Rightarrow> int \<Rightarrow> 'p \<Rightarrow> error + 'p layer" where
  "drawFastHLine s x0 x1 y color =
     (let (x0, x1) = (if x1 < x0 then (x1, x0) else (x0, x1))
      in if x1 < 0 \<or> x0 \<ge> int (localWidth s) \<or> y < 0 \<or> y \<ge> int (localHeight s) then Inr s
         else
           let x0 = (if x0 < 0 then 0 else x0);
               x1 = (if x1 \<ge> int (localWidth s) then to_int16 (int (localWidth s) - 1) else x1)
           in if layerRotation s = rotation0 then drawHardwareHLine s x0 x1 y color
              else if layerRotation s = rotation180 then
                drawHardwareHLine s ((int (matrixWidth s) - 1) - x1) ((int (matrixWidth s) - 1) - x0)
                  ((int (matrixHeight s) - 1) - y) color
              else if layerRotation s = rotation90 then
                drawHardwareVLine s ((int (matrixWidth s) - 1) - y) x0 x1 color
              else
                drawHardwareVLine s y ((int (matrixHeight s) - 1) - x1)
                  ((int (matrixHeight s) - 1) - x0) color)"

definition drawFastVLine :: "'p layer \<Rightarrow> int \<Rightarrow> int \<Rightarrow> int \<Rightarrow> 'p \<Rightarrow> error + 'p layer" where
  "drawFastVLine s x y0 y1 color =
     (let (y0, y1) = (if y1 < y0 then (y1, y0) else (y0, y1))
      in if y1 < 0 \<or> y0 \<ge> int (localHeight s) \<or> x < 0 \<or> x \<ge> int (localWidth s) then Inr s
         else
           let y0 = (if y0 < 0 then 0 else y0);
               y1 = (if y1 \<ge> int (localHeight s) then to_int16 (int (localHeight s) - 1) else y1)
           in if layerRotation s = rotation0 then drawHardwareVLine s x y0 y1 color
              else if layerRotation s = rotation180 then
                drawHardwareVLine s ((int (matrixWidth s) - 1) - x) ((int (matrixHeight s) - 1) - y1)
                  ((int (matrixHeight s) - 1) - y0) color
              else if layerRotation s = rotation90 then
                drawHardwareHLine s ((int (matrixWidth s) - 1) - y1) ((int (matrixWidth s) - 1) - y0)
                  x color
              else
                drawHardwareHLine s y0 y1 ((int (matrixHeight s) - 1) - x) color)"

text \<open>
  \<open>drawPixel(x, y, color)\<close> called for every \<open>x\<close> of a list, in order: what a line
  drawn pixel by pixel does.
\<close>

definition drawPixels :: "'p layer \<Rightarrow> int list \<Rightarrow> int \<Rightarrow> 'p \<Rightarrow> error + 'p layer" where
  "drawPixels s xs y color = forEach xs (\<lambda>x s'. drawPixel s' x y color) s"

text \<open>
  A configured layer: the matrix is not empty, every pixel can be addressed with
  \<open>int16_t\<close> coordinates, and the logical size is the matrix size as seen under the
  rotation (what the inherited \<open>setRotation\<close> establishes; the contract of the
  rotation mapper is stated for logical coordinates within this size).
\<close>

definition layerConfigured :: "'p layer \<Rightarrow> bool" where
  "layerConfigured s =
     (0 < matrixWidth s \<and> matrixWidth s \<le> 32768 \<and>
      0 < matrixHeight s \<and> matrixHeight s \<le> 32768 \<and>
      (if layerRotation s = rotation0 \<or> layerRotation s = rotation180
       then localWidth s = matrixWidth s \<and> localHeight s = matrixHeight s
       else localWidth s = matrixHeight s \<and> localHeight s = matrixWidth s))"

section \<open>Compositing one scanline: \<open>fillRefreshRow\<close>\<close>

text \<open>
  The operators of the pixel structs that \<open>fillRefreshRow\<close> uses are declared
  outside this file: the conversion of an \<open>rgb48\<close> value stored in an \<open>RGB\<close>
  variable, the assignment of an \<open>RGB\<close> value to an element of the output row, and
  the arithmetic on pixels and \<open>double\<close> factors. They are parameters of the model.
  With \<open>brightLower = (255.0 - backgroundBrightness) / 255.0\<close> and
  \<open>brightUpper = backgroundBrightness / 255.0\<close>, both functions of the brightness,
  \<^item> \<open>blend d n b\<close> is \<open>d * brightLower + n * brightUpper\<close>, and
  \<^item> \<open>blendNormalised d n b\<close> is
    \<open>(d * brightLower + n * brightUpper) / (brightLower + brightUpper)\<close>,
  each converted to the type of the row element it is assigned to.
\<close>

record ('p, 'o) pixelOps =
  fromRgb48 :: "rgb48 \<Rightarrow> 'p"
  assignRow :: "'p \<Rightarrow> 'o"
  blend :: "'o \<Rightarrow> 'p \<Rightarrow> 8 word \<Rightarrow> 'o"
  blendNormalised :: "'o \<Rightarrow> 'p \<Rightarrow> 8 word \<Rightarrow> 'o"

definition bindE :: "error + 'x \<Rightarrow> ('x \<Rightarrow> error + 'y) \<Rightarrow> error + 'y" where
  "bindE r f = (case r of Inl e \<Rightarrow> Inl e | Inr v \<Rightarrow> f v)"

text \<open>
  \<open>v << n\<close> and \<open>v >> n\<close> on \<open>int\<close> operands (the channel is promoted to \<open>int\<close>).
  A negative shift count is undefined in C++; here it shifts by nothing.
\<close>

definition shiftLeft :: "int \<Rightarrow> int \<Rightarrow> int" where
  "shiftLeft v n = v * 2 ^ nat n"

definition shiftRight :: "int \<Rightarrow> int \<Rightarrow> int" where
  "shiftRight v n = v div 2 ^ nat n"

text \<open>
  The index into the table for one channel value when color correction is enabled:
  \<open>channel << brightnessShifts\<close> for a 24-bit source,
  \<open>channel >> (4 - brightnessShifts)\<close> for a 48-bit source.
\<close>

definition lutIndex :: "'a::len itself \<Rightarrow> int \<Rightarrow> int \<Rightarrow> int" where
  "lutIndex t channel brightnessShifts =
     (if sizeofRGB t \<le> 3 then shiftLeft channel brightnessShifts
      else shiftRight channel (4 - brightnessShifts))"

text \<open>\<open>backgroundColorCorrectionLUT[i]\<close>; the table has as many entries as its list.\<close>

definition lutAt :: "16 word list \<Rightarrow> int \<Rightarrow> error + 16 word" where
  "lutAt lut i = (if 0 \<le> i \<and> i < int (length lut) then Inr (lut ! nat i) else Inl OutOfBounds)"

text \<open>
  \<open>currentPixel = *ptr++\<close> in column \<open>i\<close>, with
  \<open>ptr = currentRefreshBufferPtr + hardwareY * matrixWidth\<close> before the loop.
\<close>

definition refreshPixel :: "'p layer \<Rightarrow> nat \<Rightarrow> int \<Rightarrow> error + 'p" where
  "refreshPixel s hardwareY i =
     (if 0 \<le> i \<and> hardwareY * matrixWidth s + nat i < bufferSize s
      then Inr (memory s (currentRefreshBufferPtr s + hardwareY * matrixWidth s + nat i))
      else Inl OutOfBounds)"

text \<open>
  \<open>newPixel\<close> with color correction. For a 24-bit source the \<open>rgb48\<close> value built
  from the three table entries is converted to \<open>RGB\<close>; for a 48-bit source \<open>RGB\<close>
  is \<open>rgb48\<close> and the entries are the channels.
\<close>

definition correctedPixel ::
  "(('a::len) word rgb, 'o) pixelOps \<Rightarrow> 16 word list \<Rightarrow> 'a word rgb \<Rightarrow> int \<Rightarrow> error + 'a word rgb" where
  "correctedPixel ops lut currentPixel brightnessShifts =
     bindE (lutAt lut (lutIndex TYPE('a) (uint (red currentPixel)) brightnessShifts)) (\<lambda>r.
     bindE (lutAt lut (lutIndex TYPE('a) (uint (green currentPixel)) brightnessShifts)) (\<lambda>g.
     bindE (lutAt lut (lutIndex TYPE('a) (uint (blue currentPixel)) brightnessShifts)) (\<lambda>b.
       if sizeofRGB TYPE('a) \<le> 3
       then Inr (fromRgb48 ops \<lparr>red = r, green = g, blue = b\<rparr>)
       else Inr \<lparr>red = ucast r, green = ucast g, blue = ucast b\<rparr>)))"

text \<open>
  \<open>newPixel\<close> without color correction: \<open>rgb24(red << n, green << n, blue << n)\<close>
  for a 24-bit source and \<open>rgb48(\<dots>)\<close> for a 48-bit one. Either constructor takes
  channels of the width of \<open>RGB\<close>, which truncates the shifted \<open>int\<close>.
\<close>

definition shiftedPixel :: "('a::len) word rgb \<Rightarrow> int \<Rightarrow> 'a word rgb" where
  "shiftedPixel currentPixel brightnessShifts =
     \<lparr>red = word_of_int (shiftLeft (uint (red currentPixel)) brightnessShifts),
      green = word_of_int (shiftLeft (uint (green currentPixel)) brightnessShifts),
      blue = word_of_int (shiftLeft (uint (blue currentPixel)) brightnessShifts)\<rparr>"

text \<open>\<open>refreshRow[i] = v\<close> on a row of \<open>length refreshRow\<close> elements.\<close>

definition storeRow :: "'o list \<Rightarrow> int \<Rightarrow> ('o \<Rightarrow> 'o) \<Rightarrow> error + 'o list" where
  "storeRow refreshRow i f =
     (if 0 \<le> i \<and> nat i < length refreshRow
      then Inr (refreshRow[nat i := f (refreshRow ! nat i)])
      else Inl OutOfBounds)"

text \<open>The overload for an \<open>rgb48\<close> output row.\<close>

definition fillRefreshRow48 ::
  "(('a::len) word rgb, rgb48) pixelOps \<Rightarrow> 'a word rgb layer \<Rightarrow> nat \<Rightarrow> rgb48 list \<Rightarrow> int
     \<Rightarrow> error + rgb48 list" where
  "fillRefreshRow48 ops s hardwareY refreshRow brightnessShifts =
     (if backgroundBrightness s = 0 then Inr refreshRow
      else if chromaKeyEnabled s \<and>
              (int hardwareY < firstOverlayLine s \<or> int hardwareY > lastOverlayLine s)
        then Inr refreshRow
      else if ccEnabled s then
        forEach [0 .. int (matrixWidth s) - 1] (\<lambda>i row.
          bindE (refreshPixel s hardwareY i) (\<lambda>currentPixel.
            if chromaKeyEnabled s \<and> currentPixel = chromaKeyColor s then Inr row
            else
              bindE (correctedPixel ops (backgroundColorCorrectionLUT s) currentPixel brightnessShifts)
                (\<lambda>newPixel.
                  storeRow row i (\<lambda>d. blendNormalised ops d newPixel (backgroundBrightness s)))))
          refreshRow
      else
        forEach [0 .. int (matrixWidth s) - 1] (\<lambda>i row.
          bindE (refreshPixel s hardwareY i) (\<lambda>currentPixel.
            if chromaKeyEnabled s \<and> currentPixel = chromaKeyColor s then Inr row
            else
              let newPixel = shiftedPixel currentPixel brightnessShifts
              in storeRow row i (\<lambda>d. blend ops d newPixel (backgroundBrightness s))))
          refreshRow)"

text \<open>The overload for an \<open>rgb24\<close> output row.\<close>

definition fillRefreshRow24 ::
  "(('a::len) word rgb, rgb24) pixelOps \<Rightarrow> 'a word rgb layer \<Rightarrow> nat \<Rightarrow> rgb24 list \<Rightarrow> int
     \<Rightarrow> error + rgb24 list" where
  "fillRefreshRow24 ops s hardwareY refreshRow brightnessShifts =
     (if backgroundBrightness s = 0 then Inr refreshRow
      else if chromaKeyEnabled s \<and>
              (int hardwareY < firstOverlayLine s \<or> int hardwareY > lastOverlayLine s)
        then Inr refreshRow
      else if ccEnabled s then
        forEach [0 .. int (matrixWidth s) - 1] (\<lambda>i row.
          bindE (refreshPixel s hardwareY i) (\<lambda>currentPixel.
            if chromaKeyEnabled s \<and> currentPixel = chromaKeyColor s then Inr row
            else
              bindE (correctedPixel ops (backgroundColorCorrectionLUT s) currentPixel brightnessShifts)
                (\<lambda>newPixel.
                  if backgroundBrightness s = 255
                  then storeRow row i (\<lambda>d. assignRow ops newPixel)
                  else storeRow row i (\<lambda>d. blend ops d newPixel (backgroundBrightness s)))))
          refreshRow
      else
        forEach [0 .. int (matrixWidth s) - 1] (\<lambda>i row.
          bindE (refreshPixel s hardwareY i) (\<lambda>currentPixel.
            if chromaKeyEnabled s \<and> currentPixel = chromaKeyColor s then Inr row
            else
              let newPixel = shiftedPixel currentPixel brightnessShifts
              in if backgroundBrightness s = 255
                 then storeRow row i (\<lambda>d. assignRow ops newPixel)
                 else storeRow row i (\<lambda>d. blend ops d newPixel (backgroundBrightness s))))
          refreshRow)"

section \<open>Auxiliary definitions for the proofs\<close>

text \<open>
  The rotation mapping as one function: the expression that \<open>drawPixel\<close> and
  \<open>readPixel\<close> each contain (lemmas \<open>drawPixel_hw\<close> and \<open>readPixel_hw\<close> below),
  the test for a logical coordinate inside the layer, and the row-major index of the
  mapped coordinate.
\<close>

definition hwCoords :: "'p layer \<Rightarrow> int \<Rightarrow> int \<Rightarrow> int \<times> int" where
  "hwCoords s x y =
     (if layerRotation s = rotation0 then (x, y)
      else if layerRotation s = rotation180
        then ((int (matrixWidth s) - 1) - x, (int (matrixHeight s) - 1) - y)
      else if layerRotation s = rotation90
        then ((int (matrixWidth s) - 1) - y, x)
      else (y, (int (matrixHeight s) - 1) - x))"

definition inBounds :: "'p layer \<Rightarrow> int \<Rightarrow> int \<Rightarrow> bool" where
  "inBounds s x y = (0 \<le> x \<and> x < int (localWidth s) \<and> 0 \<le> y \<and> y < int (localHeight s))"

definition hwIndex :: "'p layer \<Rightarrow> int \<Rightarrow> int \<Rightarrow> nat" where
  "hwIndex s x y = nat (snd (hwCoords s x y) * int (matrixWidth s) + fst (hwCoords s x y))"

text \<open>
  The way back from a physical coordinate to the logical one under each rotation.
  The source has no such function; it is the second half of the round trip.
\<close>

definition logicalCoords :: "'p layer \<Rightarrow> int \<Rightarrow> int \<Rightarrow> int \<times> int" where
  "logicalCoords s hwx hwy =
     (case layerRotation s of
        rotation0 \<Rightarrow> (hwx, hwy)
      | rotation180 \<Rightarrow> ((int (matrixWidth s) - 1) - hwx, (int (matrixHeight s) - 1) - hwy)
      | rotation90 \<Rightarrow> (hwy, (int (matrixWidth s) - 1) - hwx)
      | rotation270 \<Rightarrow> ((int (matrixHeight s) - 1) - hwy, hwx))"

text \<open>Both pointer variables point to the buffers that hold their roles.\<close>

definition pointersAgree :: "'p layer \<Rightarrow> bool" where
  "pointersAgree s =
     (currentDrawBufferPtr s = bufferAt s (currentDrawBuffer s) \<and>
      currentRefreshBufferPtr s = bufferAt s (currentRefreshBuffer s))"

text \<open>
  Modelled from the spec: the operators of the pixel structs (a pixel times a
  \<open>double\<close>, the sum of two pixels, a pixel divided by a \<open>double\<close>) are declared
  outside this file. At \<open>backgroundBrightness = 255\<close> the source computes the
  weights \<open>brightLower = (255.0 - 255) / 255.0 = 0.0\<close> and
  \<open>brightUpper = 255 / 255.0 = 1.0\<close>, both exact, and the blend arithmetic is, by
  the spec, floating point per channel, converted to the channel width of the
  destination: \<open>d * 0.0 + n * 1.0\<close>, also divided by \<open>0.0 + 1.0\<close>, is the pixel \<open>n\<close>
  as the row stores it. That is this property of the operator parameters.
\<close>

definition fullOpacityExact :: "('p, 'o) pixelOps \<Rightarrow> bool" where
  "fullOpacityExact ops =
     ((\<forall>d n. blend ops d n 255 = assignRow ops n) \<and>
      (\<forall>d n. blendNormalised ops d n 255 = assignRow ops n))"

text \<open>The state \<open>s\<close> with store \<open>m\<close> in which every address of \<open>A\<close> holds \<open>c\<close>.\<close>

definition paint :: "'p layer \<Rightarrow> (nat \<Rightarrow> 'p) \<Rightarrow> nat set \<Rightarrow> 'p \<Rightarrow> 'p layer" where
  "paint s m A c = s\<lparr>memory := (\<lambda>a. if a \<in> A then c else m a)\<rparr>"

text \<open>
  A layer for concrete evaluation: a \<open>2 \<times> 2\<close> matrix of 24-bit pixels, the two frame
  buffers at addresses 0 to 3 and 4 to 7, buffer 0 drawn into and buffer 1 refreshed
  from, full brightness, chroma key black on lines 0 to 1, and a table of 256 entries.
  One pixel of each buffer is not black.
\<close>

definition demoLayer :: "rgb24 layer" where
  "demoLayer =
     \<lparr>matrixWidth = 2, matrixHeight = 2, localWidth = 2, localHeight = 2,
      layerRotation = rotation0, ccEnabled = False,
      backgroundBuffers = (0, 4), backgroundColorCorrectionLUT = replicate 256 0,
      currentDrawBuffer = 0, currentRefreshBuffer = 1, swapPending = False,
      currentDrawBufferPtr = 0, currentRefreshBufferPtr = 4,
      backgroundBrightness = 255,
      chromaKeyEnabled = True, chromaKeyColor = \<lparr>red = 0, green = 0, blue = 0\<rparr>,
      firstOverlayLine = 0, lastOverlayLine = 1,
      memory = (\<lambda>a. if a = 4 then \<lparr>red = 10, green = 20, blue = 30\<rparr>
                     else if a = 1 then \<lparr>red = 1, green = 2, blue = 3\<rparr>
                     else \<lparr>red = 0, green = 0, blue = 0\<rparr>)\<rparr>"

text \<open>
  Operators for concrete evaluation, channel by channel with integer arithmetic:
  the depths are converted by shifting 8 bits, and a blend weighs the two pixels with
  \<open>255 - brightness\<close> and \<open>brightness\<close>.
\<close>

definition mixChannel :: "('w::len) word \<Rightarrow> 'w word \<Rightarrow> 8 word \<Rightarrow> 'w word" where
  "mixChannel d n b = word_of_int ((uint d * (255 - uint b) + uint n * uint b) div 255)"

definition narrowPixel :: "rgb48 \<Rightarrow> rgb24" where
  "narrowPixel p =
     \<lparr>red = ucast (drop_bit 8 (red p)), green = ucast (drop_bit 8 (green p)),
      blue = ucast (drop_bit 8 (blue p))\<rparr>"

definition widenPixel :: "rgb24 \<Rightarrow> rgb48" where
  "widenPixel p =
     \<lparr>red = push_bit 8 (ucast (red p)), green = push_bit 8 (ucast (green p)),
      blue = push_bit 8 (ucast (blue p))\<rparr>"

definition demoOps24 :: "(rgb24, rgb24) pixelOps" where
  "demoOps24 =
     \<lparr>fromRgb48 = narrowPixel,
      assignRow = (\<lambda>p. p),
      blend = (\<lambda>d n b. \<lparr>red = mixChannel (red d) (red n) b,
                          green = mixChannel (green d) (green n) b,
                          blue = mixChannel (blue d) (blue n) b\<rparr>),
      blendNormalised = (\<lambda>d n b. \<lparr>red = mixChannel (red d) (red n) b,
                                    green = mixChannel (green d) (green n) b,
                                    blue = mixChannel (blue d) (blue n) b\<rparr>)\<rparr>"

definition demoOps48 :: "(rgb24, rgb48) pixelOps" where
  "demoOps48 =
     \<lparr>fromRgb48 = narrowPixel,
      assignRow = widenPixel,
      blend = (\<lambda>d n b. \<lparr>red = mixChannel (red d) (red (widenPixel n)) b,
                          green = mixChannel (green d) (green (widenPixel n)) b,
                          blue = mixChannel (blue d) (blue (widenPixel n)) b\<rparr>),
      blendNormalised = (\<lambda>d n b. \<lparr>red = mixChannel (red d) (red (widenPixel n)) b,
                                    green = mixChannel (green d) (green (widenPixel n)) b,
                                    blue = mixChannel (blue d) (blue (widenPixel n)) b\<rparr>)\<rparr>"

section \<open>The swap controller\<close>

lemma handleBufferSwap_clears: "\<not> swapPending (handleBufferSwap s)"
  by (simp add: handleBufferSwap_def Let_def)

lemma waitWhileSwapPending_eq:
  "waitWhileSwapPending s = (if swapPending s then handleBufferSwap s else s)"
proof (cases "swapPending s")
  case True
  have "waitWhileSwapPending s = waitWhileSwapPending (handleBufferSwap s)"
    using True by (subst waitWhileSwapPending.simps) simp
  also have "\<dots> = handleBufferSwap s"
    using handleBufferSwap_clears [of s] by (subst waitWhileSwapPending.simps) simp
  finally show ?thesis using True by simp
next
  case False
  then show ?thesis by (subst waitWhileSwapPending.simps) simp
qed

lemma roleInvariant_handleBufferSwap:
  "roleInvariant s \<Longrightarrow> roleInvariant (handleBufferSwap s)"
  by (auto simp: roleInvariant_def handleBufferSwap_def Let_def)

lemma roleInvariant_wait:
  "roleInvariant s \<Longrightarrow> roleInvariant (waitWhileSwapPending s)"
  by (simp add: waitWhileSwapPending_eq roleInvariant_handleBufferSwap)

lemma roleInvariant_swapBuffers:
  assumes "roleInvariant s"
  shows "roleInvariant (swapBuffers copy s)"
proof -
  let ?s2 = "(waitWhileSwapPending s)\<lparr>swapPending := True\<rparr>"
  have r2: "roleInvariant ?s2"
    using roleInvariant_wait [OF assms] by (simp add: roleInvariant_def)
  have r3: "roleInvariant (waitWhileSwapPending ?s2)"
    by (rule roleInvariant_wait [OF r2])
  show ?thesis
    using r2 r3 by (simp add: swapBuffers_def Let_def roleInvariant_def)
qed

lemma roleInvariant_runCall: "roleInvariant s \<Longrightarrow> roleInvariant (runCall c s)"
  by (cases c) (simp_all add: roleInvariant_swapBuffers roleInvariant_handleBufferSwap)

lemma roleInvariant_runCalls: "roleInvariant s \<Longrightarrow> roleInvariant (runCalls cs s)"
  by (induction cs arbitrary: s) (simp_all add: roleInvariant_runCall)

lemma roleInvariant_beginLayer: "roleInvariant (beginLayer s)"
  by (simp add: roleInvariant_def beginLayer_def)

text \<open>
  Claim C2. After \<open>begin()\<close> and any sequence of \<open>swapBuffers\<close> and
  \<open>handleBufferSwap\<close> calls, stopped after any number \<open>n\<close> of them,
  \<open>currentDrawBuffer\<close> and \<open>currentRefreshBuffer\<close> are two different indices
  among 0 and 1: one buffer holds the draw role and the other the refresh role.
\<close>

theorem role_invariant_between_calls:
  "roleInvariant (runCalls (take n cs) (beginLayer s))"
  by (rule roleInvariant_runCalls [OF roleInvariant_beginLayer])

lemma buffersDisjoint_constructed:
  "buffersDisjoint (SMLayerBackground buffer width height lut s)"
  by (simp add: buffersDisjoint_def SMLayerBackground_def bufferAt_def bufferSize_def)

lemma buffers_handleBufferSwap:
  "backgroundBuffers (handleBufferSwap s) = backgroundBuffers s \<and>
   matrixWidth (handleBufferSwap s) = matrixWidth s \<and>
   matrixHeight (handleBufferSwap s) = matrixHeight s"
  by (simp add: handleBufferSwap_def Let_def)

lemma buffers_wait:
  "backgroundBuffers (waitWhileSwapPending s) = backgroundBuffers s \<and>
   matrixWidth (waitWhileSwapPending s) = matrixWidth s \<and>
   matrixHeight (waitWhileSwapPending s) = matrixHeight s"
  by (simp add: waitWhileSwapPending_eq buffers_handleBufferSwap)

lemma buffers_swapBuffers:
  "backgroundBuffers (swapBuffers copy s) = backgroundBuffers s \<and>
   matrixWidth (swapBuffers copy s) = matrixWidth s \<and>
   matrixHeight (swapBuffers copy s) = matrixHeight s"
  by (simp add: swapBuffers_def Let_def buffers_wait)

lemma buffers_runCalls:
  "backgroundBuffers (runCalls cs s) = backgroundBuffers s \<and>
   matrixWidth (runCalls cs s) = matrixWidth s \<and>
   matrixHeight (runCalls cs s) = matrixHeight s"
proof (induction cs arbitrary: s)
  case Nil
  then show ?case by simp
next
  case (Cons c cs)
  then show ?case
    by (cases c) (simp_all add: buffers_swapBuffers buffers_handleBufferSwap)
qed

lemma buffersDisjoint_runCalls:
  "buffersDisjoint (runCalls cs (beginLayer (SMLayerBackground buffer width height lut s)))"
proof -
  have "buffersDisjoint (beginLayer (SMLayerBackground buffer width height lut s))"
    using buffersDisjoint_constructed [of buffer width height lut s]
    by (simp add: buffersDisjoint_def beginLayer_def bufferAt_def bufferSize_def)
  then show ?thesis
    using buffers_runCalls [of cs "beginLayer (SMLayerBackground buffer width height lut s)"]
    by (simp add: buffersDisjoint_def bufferAt_def bufferSize_def)
qed

lemma pointersAgree_beginLayer: "pointersAgree (beginLayer s)"
  by (simp add: pointersAgree_def beginLayer_def bufferAt_def)

lemma pointersAgree_handleBufferSwap:
  "pointersAgree s \<Longrightarrow> pointersAgree (handleBufferSwap s)"
  by (simp add: pointersAgree_def handleBufferSwap_def Let_def bufferAt_def)

lemma pointersAgree_wait:
  "pointersAgree s \<Longrightarrow> pointersAgree (waitWhileSwapPending s)"
  by (simp add: waitWhileSwapPending_eq pointersAgree_handleBufferSwap)

lemma pointersAgree_flag: "pointersAgree (s\<lparr>swapPending := b\<rparr>) = pointersAgree s"
  by (simp add: pointersAgree_def bufferAt_def)

lemma pointersAgree_memory: "pointersAgree (s\<lparr>memory := m\<rparr>) = pointersAgree s"
  by (simp add: pointersAgree_def bufferAt_def)

lemma pointersAgree_swapBuffers:
  "pointersAgree s \<Longrightarrow> pointersAgree (swapBuffers copy s)"
  by (simp add: swapBuffers_def Let_def pointersAgree_wait pointersAgree_flag pointersAgree_memory)

lemma pointersAgree_runCalls:
  "pointersAgree s \<Longrightarrow> pointersAgree (runCalls cs s)"
proof (induction cs arbitrary: s)
  case Nil
  then show ?case by simp
next
  case (Cons c cs)
  then show ?case
    by (cases c) (simp_all add: pointersAgree_swapBuffers pointersAgree_handleBufferSwap)
qed

lemma drawPointer_is_real_back_buffer:
  "currentDrawBufferPtr (runCalls cs (beginLayer s)) = getRealBackBuffer (runCalls cs (beginLayer s))"
  using pointersAgree_runCalls [OF pointersAgree_beginLayer, of cs s]
  by (simp add: pointersAgree_def getRealBackBuffer_def)

lemma memcpy_dst: "k < n \<Longrightarrow> memcpy dst src n m (dst + k) = m (src + k)"
  by (simp add: memcpy_def)

lemma memcpy_outside: "a < dst \<or> dst + n \<le> a \<Longrightarrow> memcpy dst src n m a = m a"
  by (auto simp: memcpy_def)

lemma swapBuffers_copy_draw1:
  assumes "roleInvariant s" and "buffersDisjoint s"
  shows "(let s' = swapBuffers True s in
           (\<forall>k<bufferSize s'. memory s' (bufferAt s' (currentDrawBuffer s') + k) =
                               memory s' (bufferAt s' (currentRefreshBuffer s') + k)))"
proof -
  let ?s2 = "(waitWhileSwapPending s)\<lparr>swapPending := True\<rparr>"
  let ?s3 = "waitWhileSwapPending ?s2"
  have r3: "roleInvariant ?s3"
    using roleInvariant_wait [OF assms(1)]
    by (intro roleInvariant_wait) (simp add: roleInvariant_def)
  have same: "backgroundBuffers ?s3 = backgroundBuffers s" "bufferSize ?s3 = bufferSize s"
    by (simp_all add: waitWhileSwapPending_eq handleBufferSwap_def Let_def bufferSize_def)
  have d3: "buffersDisjoint ?s3"
    using assms(2) same by (simp add: buffersDisjoint_def bufferAt_def)
  show ?thesis
  proof (cases "currentDrawBuffer ?s3 = 0")
    case True
    then have ref: "currentRefreshBuffer ?s3 = 1"
      using r3 by (auto simp: roleInvariant_def)
    show ?thesis
      using True ref d3
      by (auto simp: swapBuffers_def Let_def bufferSize_def buffersDisjoint_def memcpy_def bufferAt_def)
  next
    case False
    then have dr: "currentDrawBuffer ?s3 = 1" and ref: "currentRefreshBuffer ?s3 = 0"
      using r3 by (auto simp: roleInvariant_def)
    show ?thesis
      using dr ref d3
      by (auto simp: swapBuffers_def Let_def bufferSize_def buffersDisjoint_def memcpy_def bufferAt_def)
  qed
qed

lemma swapBuffers_copy_flag: "\<not> swapPending (swapBuffers True s)"
  by (simp add: swapBuffers_def waitWhileSwapPending_eq handleBufferSwap_def Let_def)

lemma swapBuffers_copy_ptrs:
  "currentDrawBufferPtr (swapBuffers True s) =
     bufferAt (swapBuffers True s) (currentDrawBuffer (swapBuffers True s)) \<and>
   currentRefreshBufferPtr (swapBuffers True s) =
     bufferAt (swapBuffers True s) (currentRefreshBuffer (swapBuffers True s))"
  by (simp add: swapBuffers_def waitWhileSwapPending_eq handleBufferSwap_def Let_def bufferAt_def)

lemma swapBuffers_copy_roles:
  assumes "\<not> swapPending s"
  shows "currentDrawBuffer (swapBuffers True s) = currentRefreshBuffer s \<and>
         currentRefreshBuffer (swapBuffers True s) = currentDrawBuffer s \<and>
         backgroundBuffers (swapBuffers True s) = backgroundBuffers s \<and>
         bufferSize (swapBuffers True s) = bufferSize s"
  using assms
  by (simp add: swapBuffers_def waitWhileSwapPending_eq handleBufferSwap_def Let_def bufferSize_def)

lemma swapBuffers_copy_source:
  assumes "\<not> swapPending s" and "roleInvariant s" and "buffersDisjoint s"
    and "k < bufferSize s"
  shows "memory (swapBuffers True s) (bufferAt s (currentDrawBuffer s) + k) =
         memory s (bufferAt s (currentDrawBuffer s) + k)"
proof (cases "currentDrawBuffer s = 0")
  case True
  then have "currentRefreshBuffer s = 1"
    using assms(2) by (auto simp: roleInvariant_def)
  then show ?thesis
    using True assms(1,3,4)
    by (auto simp: swapBuffers_def waitWhileSwapPending_eq handleBufferSwap_def Let_def
        bufferSize_def buffersDisjoint_def memcpy_def bufferAt_def)
next
  case False
  then have "currentDrawBuffer s = 1" "currentRefreshBuffer s = 0"
    using assms(2) by (auto simp: roleInvariant_def)
  then show ?thesis
    using assms(1,3,4)
    by (auto simp: swapBuffers_def waitWhileSwapPending_eq handleBufferSwap_def Let_def
        bufferSize_def buffersDisjoint_def memcpy_def bufferAt_def)
qed

text \<open>
  Claim C3. When \<open>swapBuffers(true)\<close> has returned (the request, the swap done by
  the refresh interrupt, then the copy), no swap is pending, the pointers agree with
  the roles, and the buffer now drawn into equals, pixel for pixel, the buffer now
  refreshed from. The copy goes from the buffer holding the refresh role after the
  swap: if no swap was pending at the call, the roles are exchanged and both buffers
  hold what the draw buffer held before the call.
\<close>

theorem copy_swap_identical:
  assumes "roleInvariant s" and "buffersDisjoint s"
  shows "(let s' = swapBuffers True s in
           \<not> swapPending s' \<and> roleInvariant s' \<and>
           currentDrawBufferPtr s' = bufferAt s' (currentDrawBuffer s') \<and>
           currentRefreshBufferPtr s' = bufferAt s' (currentRefreshBuffer s') \<and>
           (\<forall>k<bufferSize s'. memory s' (currentDrawBufferPtr s' + k) =
                               memory s' (currentRefreshBufferPtr s' + k)) \<and>
           (\<not> swapPending s \<longrightarrow>
              currentDrawBuffer s' = currentRefreshBuffer s \<and>
              currentRefreshBuffer s' = currentDrawBuffer s \<and>
              (\<forall>k<bufferSize s. memory s' (currentRefreshBufferPtr s' + k) =
                                 memory s (getRealBackBuffer s + k))))"
proof -
  let ?s' = "swapBuffers True s"
  have a: "\<not> swapPending ?s'" by (rule swapBuffers_copy_flag)
  have b: "roleInvariant ?s'" by (rule roleInvariant_swapBuffers [OF assms(1)])
  note c = swapBuffers_copy_ptrs [of s]
  have d: "\<forall>k<bufferSize ?s'. memory ?s' (currentDrawBufferPtr ?s' + k) =
                               memory ?s' (currentRefreshBufferPtr ?s' + k)"
    using swapBuffers_copy_draw1 [OF assms] c by (simp add: Let_def)
  have e: "currentDrawBuffer ?s' = currentRefreshBuffer s \<and>
           currentRefreshBuffer ?s' = currentDrawBuffer s \<and>
           (\<forall>k<bufferSize s. memory ?s' (currentRefreshBufferPtr ?s' + k) =
                              memory s (getRealBackBuffer s + k))"
    if np: "\<not> swapPending s"
  proof -
    note r = swapBuffers_copy_roles [OF np]
    have "currentRefreshBufferPtr ?s' = bufferAt s (currentDrawBuffer s)"
      using c r by (simp add: bufferAt_def)
    then show ?thesis
      using r swapBuffers_copy_source [OF np assms]
      by (simp add: getRealBackBuffer_def)
  qed
  show ?thesis
    unfolding Let_def using a b c d e by blast
qed

theorem copy_swap_identical_witness:
  "roleInvariant demoLayer \<and> buffersDisjoint demoLayer \<and>
   currentDrawBuffer (swapBuffers True demoLayer) = 1 \<and>
   currentRefreshBuffer (swapBuffers True demoLayer) = 0 \<and>
   memory (swapBuffers True demoLayer) (currentDrawBufferPtr (swapBuffers True demoLayer) + 1) =
     \<lparr>red = 1, green = 2, blue = 3\<rparr> \<and>
   memory (swapBuffers True demoLayer) (currentRefreshBufferPtr (swapBuffers True demoLayer) + 1) =
     \<lparr>red = 1, green = 2, blue = 3\<rparr>"
proof -
  have h1: "roleInvariant demoLayer"
    by (simp add: roleInvariant_def demoLayer_def)
  have h2: "buffersDisjoint demoLayer"
    by (simp add: buffersDisjoint_def bufferAt_def bufferSize_def demoLayer_def)
  show ?thesis
    using copy_swap_identical [OF h1 h2] h1 h2
    by (simp add: Let_def demoLayer_def swapBuffers_def waitWhileSwapPending_eq
        handleBufferSwap_def bufferAt_def bufferSize_def memcpy_def)
qed

section \<open>Rotation mapping and single pixels\<close>

lemma to_int16_id: "0 \<le> v \<Longrightarrow> v < 32768 \<Longrightarrow> to_int16 v = v"
  by (simp add: to_int16_def)

lemma to_uint16_id: "0 \<le> v \<Longrightarrow> v < 65536 \<Longrightarrow> to_uint16 v = v"
  by (simp add: to_uint16_def)

lemma hwCoords_range:
  assumes "layerConfigured s" and "inBounds s x y"
  shows "0 \<le> fst (hwCoords s x y) \<and> fst (hwCoords s x y) < int (matrixWidth s) \<and>
         0 \<le> snd (hwCoords s x y) \<and> snd (hwCoords s x y) < int (matrixHeight s)"
  using assms
  by (cases "layerRotation s") (auto simp: layerConfigured_def inBounds_def hwCoords_def)

lemma hwCoords_inj:
  assumes "hwCoords s x y = hwCoords s x' y'"
  shows "x = x' \<and> y = y'"
  using assms by (cases "layerRotation s") (auto simp: hwCoords_def)

lemma rowMajor_range:
  fixes hx hy w h :: int
  assumes "0 \<le> hx" "hx < w" "0 \<le> hy" "hy < h"
  shows "0 \<le> hy * w + hx \<and> hy * w + hx < w * h"
proof -
  have "hy * w + hx < hy * w + w" using assms by simp
  also have "\<dots> = (hy + 1) * w" by (simp add: algebra_simps)
  also have "\<dots> \<le> h * w" using assms by (intro mult_right_mono) auto
  finally have "hy * w + hx < w * h" by (simp add: mult.commute)
  moreover have "0 \<le> hy * w" using assms by (intro mult_nonneg_nonneg) auto
  ultimately show ?thesis using assms by simp
qed

lemma rowMajor_inj:
  fixes hx hy hx' hy' w :: int
  assumes "0 \<le> hx" "hx < w" "0 \<le> hx'" "hx' < w" "hy * w + hx = hy' * w + hx'"
  shows "hx = hx' \<and> hy = hy'"
proof -
  have m: "(hy * w + hx) mod w = hx" "(hy' * w + hx') mod w = hx'"
    using assms(1-4) by simp_all
  have d: "(hy * w + hx) div w = hy" "(hy' * w + hx') div w = hy'"
    using assms(1-4) by simp_all
  have "hx = hx'" using m by (simp only: assms(5))
  moreover have "hy = hy'" using d by (simp only: assms(5))
  ultimately show ?thesis by simp
qed

lemma loadPixel_ok:
  assumes "matrixWidth s \<le> 32768" "matrixHeight s \<le> 32768"
    and "0 \<le> hx" "hx < int (matrixWidth s)" "0 \<le> hy" "hy < int (matrixHeight s)"
  shows "loadPixelToDrawBuffer s hx hy c =
           Inr (s\<lparr>memory := (memory s)(currentDrawBufferPtr s + nat (hy * int (matrixWidth s) + hx) := c)\<rparr>)"
proof -
  have "to_int16 hx = hx" "to_int16 hy = hy"
    using assms by (simp_all add: to_int16_id)
  moreover have "0 \<le> hy * int (matrixWidth s) + hx \<and>
      hy * int (matrixWidth s) + hx < int (matrixWidth s) * int (matrixHeight s)"
    using assms by (intro rowMajor_range) auto
  ultimately show ?thesis
    by (simp add: loadPixelToDrawBuffer_def bufferSize_def)
qed

lemma readPixelFrom_ok:
  assumes "matrixWidth s \<le> 32768" "matrixHeight s \<le> 32768"
    and "0 \<le> hx" "hx < int (matrixWidth s)" "0 \<le> hy" "hy < int (matrixHeight s)"
  shows "readPixelFromDrawBuffer s hx hy =
           Inr (memory s (currentDrawBufferPtr s + nat (hy * int (matrixWidth s) + hx)))"
proof -
  have "to_int16 hx = hx" "to_int16 hy = hy"
    using assms by (simp_all add: to_int16_id)
  moreover have "0 \<le> hy * int (matrixWidth s) + hx \<and>
      hy * int (matrixWidth s) + hx < int (matrixWidth s) * int (matrixHeight s)"
    using assms by (intro rowMajor_range) auto
  ultimately show ?thesis
    by (simp add: readPixelFromDrawBuffer_def bufferSize_def)
qed

lemma drawPixel_hw:
  "drawPixel s x y c =
     (if inBounds s x y
      then loadPixelToDrawBuffer s (fst (hwCoords s x y)) (snd (hwCoords s x y)) c
      else Inr s)"
  by (auto simp: drawPixel_def inBounds_def hwCoords_def)

lemma readPixel_hw:
  "readPixel s x y =
     (if inBounds s x y
      then readPixelFromDrawBuffer s (fst (hwCoords s x y)) (snd (hwCoords s x y))
      else Inr \<lparr>red = 0, green = 0, blue = 0\<rparr>)"
  by (auto simp: readPixel_def inBounds_def hwCoords_def)

lemma drawPixel_inBounds:
  assumes "layerConfigured s" and "inBounds s x y"
  shows "drawPixel s x y c =
           Inr (s\<lparr>memory := (memory s)(currentDrawBufferPtr s + hwIndex s x y := c)\<rparr>)"
  using assms hwCoords_range [OF assms]
  by (simp add: drawPixel_hw hwIndex_def loadPixel_ok layerConfigured_def)

lemma readPixel_inBounds:
  assumes "layerConfigured s" and "inBounds s x y"
  shows "readPixel s x y = Inr (memory s (currentDrawBufferPtr s + hwIndex s x y))"
  using assms hwCoords_range [OF assms]
  by (simp add: readPixel_hw hwIndex_def readPixelFrom_ok layerConfigured_def)

lemma hwIndex_inj:
  assumes "layerConfigured s" "inBounds s x y" "inBounds s x' y'"
    and "hwIndex s x y = hwIndex s x' y'"
  shows "x = x' \<and> y = y'"
proof -
  note r = hwCoords_range [OF assms(1,2)] hwCoords_range [OF assms(1,3)]
  have nn: "0 \<le> snd (hwCoords s x y) * int (matrixWidth s) + fst (hwCoords s x y)"
    "0 \<le> snd (hwCoords s x' y') * int (matrixWidth s) + fst (hwCoords s x' y')"
    using r by (simp_all add: mult_nonneg_nonneg)
  have "snd (hwCoords s x y) * int (matrixWidth s) + fst (hwCoords s x y)
      = snd (hwCoords s x' y') * int (matrixWidth s) + fst (hwCoords s x' y')"
    using assms(4) nn by (simp add: hwIndex_def)
  then have "fst (hwCoords s x y) = fst (hwCoords s x' y') \<and>
             snd (hwCoords s x y) = snd (hwCoords s x' y')"
    using r by (intro rowMajor_inj) auto
  then have "hwCoords s x y = hwCoords s x' y'"
    by (simp add: prod_eq_iff)
  then show ?thesis by (rule hwCoords_inj)
qed

lemma logicalCoords_hwCoords:
  "logicalCoords s (fst (hwCoords s x y)) (snd (hwCoords s x y)) = (x, y)"
  by (cases "layerRotation s") (simp_all add: logicalCoords_def hwCoords_def)

text \<open>
  Claim C7. In a configured layer, under each of the four rotations and for every
  logical coordinate \<open>(x, y)\<close> inside the layer: \<open>drawPixel\<close> and \<open>readPixel\<close>
  access the frame buffer at the same mapped coordinate \<open>hwCoords s x y\<close>; the mapped
  coordinate lies inside the matrix; mapping it back gives \<open>(x, y)\<close>; and
  \<open>drawPixel(x, y, c)\<close> succeeds, after which \<open>readPixel(x, y)\<close> returns \<open>c\<close> and
  \<open>readPixel\<close> at every other logical coordinate inside the layer returns what it
  returned before.
\<close>

theorem rotation_round_trip:
  fixes s :: "('a::len) word rgb layer"
  assumes "layerConfigured s"
    and "0 \<le> x" and "x < int (localWidth s)" and "0 \<le> y" and "y < int (localHeight s)"
  shows "drawPixel s x y c =
           loadPixelToDrawBuffer s (fst (hwCoords s x y)) (snd (hwCoords s x y)) c \<and>
         readPixel s x y =
           readPixelFromDrawBuffer s (fst (hwCoords s x y)) (snd (hwCoords s x y)) \<and>
         0 \<le> fst (hwCoords s x y) \<and> fst (hwCoords s x y) < int (matrixWidth s) \<and>
         0 \<le> snd (hwCoords s x y) \<and> snd (hwCoords s x y) < int (matrixHeight s) \<and>
         logicalCoords s (fst (hwCoords s x y)) (snd (hwCoords s x y)) = (x, y) \<and>
         (\<exists>s'. drawPixel s x y c = Inr s' \<and> readPixel s' x y = Inr c \<and>
           (\<forall>x' y'. 0 \<le> x' \<and> x' < int (localWidth s) \<and> 0 \<le> y' \<and> y' < int (localHeight s) \<and>
                    (x', y') \<noteq> (x, y) \<longrightarrow> readPixel s' x' y' = readPixel s x' y'))"
proof -
  let ?s' = "s\<lparr>memory := (memory s)(currentDrawBufferPtr s + hwIndex s x y := c)\<rparr>"
  have ib: "inBounds s x y" using assms by (simp add: inBounds_def)
  have cfg: "layerConfigured ?s'" using assms(1) by (simp add: layerConfigured_def)
  have same: "\<And>u v. inBounds ?s' u v = inBounds s u v" "\<And>u v. hwIndex ?s' u v = hwIndex s u v"
    by (simp_all add: inBounds_def hwIndex_def hwCoords_def)
  have d: "drawPixel s x y c = Inr ?s'"
    by (rule drawPixel_inBounds [OF assms(1) ib])
  have r: "readPixel ?s' x y = Inr c"
    using readPixel_inBounds [OF cfg, of x y] ib same by simp
  have f: "readPixel ?s' x' y' = readPixel s x' y'"
    if "inBounds s x' y'" "(x', y') \<noteq> (x, y)" for x' y'
  proof -
    have "hwIndex s x' y' \<noteq> hwIndex s x y"
      using hwIndex_inj [OF assms(1) that(1) ib] that(2) by auto
    then show ?thesis
      using readPixel_inBounds [OF cfg, of x' y'] readPixel_inBounds [OF assms(1) that(1)]
        that(1) same by simp
  qed
  have m1: "drawPixel s x y c =
           loadPixelToDrawBuffer s (fst (hwCoords s x y)) (snd (hwCoords s x y)) c"
    using ib by (simp add: drawPixel_hw)
  have m2: "readPixel s x y =
           readPixelFromDrawBuffer s (fst (hwCoords s x y)) (snd (hwCoords s x y))"
    using ib by (simp add: readPixel_hw)
  have ex: "\<exists>s'. drawPixel s x y c = Inr s' \<and> readPixel s' x y = Inr c \<and>
           (\<forall>x' y'. 0 \<le> x' \<and> x' < int (localWidth s) \<and> 0 \<le> y' \<and> y' < int (localHeight s) \<and>
                    (x', y') \<noteq> (x, y) \<longrightarrow> readPixel s' x' y' = readPixel s x' y')"
    using d r f by (auto simp: inBounds_def)
  show ?thesis
    using m1 m2 hwCoords_range [OF assms(1) ib] logicalCoords_hwCoords [of s x y] ex
    by (intro conjI) simp_all
qed

theorem rotation_round_trip_witness:
  "layerConfigured (demoLayer\<lparr>layerRotation := rotation90\<rparr>) \<and>
   hwCoords (demoLayer\<lparr>layerRotation := rotation90\<rparr>) 1 0 = (1, 1) \<and>
   logicalCoords (demoLayer\<lparr>layerRotation := rotation90\<rparr>) 1 1 = (1, 0) \<and>
   (\<exists>s'. drawPixel (demoLayer\<lparr>layerRotation := rotation90\<rparr>) 1 0 \<lparr>red = 7, green = 8, blue = 9\<rparr> = Inr s' \<and>
         readPixel s' 1 0 = Inr \<lparr>red = 7, green = 8, blue = 9\<rparr> \<and>
         readPixel s' 0 1 = readPixel (demoLayer\<lparr>layerRotation := rotation90\<rparr>) 0 1)"
proof -
  let ?d = "demoLayer\<lparr>layerRotation := rotation90\<rparr>"
  have h: "layerConfigured ?d"
    by (simp add: layerConfigured_def demoLayer_def)
  have b: "(0::int) \<le> 1" "1 < int (localWidth ?d)" "(0::int) \<le> 0" "0 < int (localHeight ?d)"
    by (simp_all add: demoLayer_def)
  have c: "0 \<le> (0::int) \<and> 0 < int (localWidth ?d) \<and> 0 \<le> (1::int) \<and> 1 < int (localHeight ?d) \<and>
           (0::int, 1::int) \<noteq> (1, 0)"
    by (simp add: demoLayer_def)
  have m: "hwCoords ?d 1 0 = (1, 1)"
    by (simp add: hwCoords_def demoLayer_def)
  have l: "logicalCoords ?d 1 1 = (1, 0)"
    by (simp add: logicalCoords_def demoLayer_def)
  from rotation_round_trip [OF h b, of "\<lparr>red = 7, green = 8, blue = 9\<rparr>"] c h m l
  show ?thesis by blast
qed

text \<open>
  Claim C8. For a logical coordinate with \<open>x < 0\<close>, \<open>y < 0\<close>,
  \<open>x \<ge> localWidth\<close> or \<open>y \<ge> localHeight\<close>, \<open>drawPixel\<close> returns the state as it was
  (both frame buffers unchanged, no error) and \<open>readPixel\<close> returns the pixel
  \<open>(0, 0, 0)\<close>.
\<close>

theorem out_of_bounds_noop:
  fixes s :: "('a::len) word rgb layer"
  assumes "x < 0 \<or> y < 0 \<or> x \<ge> int (localWidth s) \<or> y \<ge> int (localHeight s)"
  shows "drawPixel s x y color = Inr s \<and> readPixel s x y = Inr \<lparr>red = 0, green = 0, blue = 0\<rparr>"
  using assms by (auto simp: drawPixel_def readPixel_def)

theorem out_of_bounds_noop_witness:
  "((-1::int) < 0 \<or> (0::int) < 0 \<or> -1 \<ge> int (localWidth demoLayer) \<or> 0 \<ge> int (localHeight demoLayer)) \<and>
   drawPixel demoLayer (-1) 0 \<lparr>red = 7, green = 8, blue = 9\<rparr> = Inr demoLayer \<and>
   readPixel demoLayer (-1) 0 = Inr \<lparr>red = 0, green = 0, blue = 0\<rparr>"
proof -
  have h: "(-1::int) < 0 \<or> (0::int) < 0 \<or> -1 \<ge> int (localWidth demoLayer) \<or> 0 \<ge> int (localHeight demoLayer)"
    by simp
  show ?thesis
    using out_of_bounds_noop [OF h, of "\<lparr>red = 7, green = 8, blue = 9\<rparr>"] h by simp
qed

section \<open>A frame drawn before the swap is the frame refreshed after it\<close>

text \<open>
  Claim C1. From a state with no swap pending and the two roles assigned,
  \<open>swapBuffers(false)\<close> followed by one \<open>handleBufferSwap()\<close> exchanges the roles:
  the index that was \<open>currentDrawBuffer\<close> is \<open>currentRefreshBuffer\<close> afterwards and
  vice versa, both pointer variables point to the buffers now holding their roles, and
  the store is untouched. So every pixel of the buffer that held the draw role is
  read, unchanged, through the refresh pointer; in particular the pixel that a
  \<open>drawPixel\<close> call wrote just before the swap, when the draw pointer pointed to
  that buffer (as it does after \<open>begin\<close> and after every swap, lemma
  \<open>drawPointer_is_real_back_buffer\<close>).
\<close>

theorem swap_exchanges_roles:
  assumes "\<not> swapPending s" and "roleInvariant s"
  shows "(let s' = handleBufferSwap (swapBuffers False s) in
           currentRefreshBuffer s' = currentDrawBuffer s \<and>
           currentDrawBuffer s' = currentRefreshBuffer s \<and>
           currentRefreshBufferPtr s' = bufferAt s' (currentRefreshBuffer s') \<and>
           currentDrawBufferPtr s' = bufferAt s' (currentDrawBuffer s') \<and>
           roleInvariant s' \<and> \<not> swapPending s' \<and>
           backgroundBuffers s' = backgroundBuffers s \<and>
           memory s' = memory s \<and>
           (\<forall>k. memory s' (currentRefreshBufferPtr s' + k) = memory s (getRealBackBuffer s + k)) \<and>
           (\<forall>s0 x y c. pointersAgree s0 \<and> layerConfigured s0 \<and> inBounds s0 x y \<and>
                       drawPixel s0 x y c = Inr s \<longrightarrow>
                       memory s' (currentRefreshBufferPtr s' + hwIndex s0 x y) = c))"
proof -
  let ?s' = "handleBufferSwap (swapBuffers False s)"
  have main: "currentRefreshBuffer ?s' = currentDrawBuffer s \<and>
           currentDrawBuffer ?s' = currentRefreshBuffer s \<and>
           currentRefreshBufferPtr ?s' = bufferAt ?s' (currentRefreshBuffer ?s') \<and>
           currentDrawBufferPtr ?s' = bufferAt ?s' (currentDrawBuffer ?s') \<and>
           roleInvariant ?s' \<and> \<not> swapPending ?s' \<and>
           backgroundBuffers ?s' = backgroundBuffers s \<and>
           memory ?s' = memory s \<and>
           (\<forall>k. memory ?s' (currentRefreshBufferPtr ?s' + k) = memory s (getRealBackBuffer s + k))"
    using assms
    by (simp add: swapBuffers_def waitWhileSwapPending_eq handleBufferSwap_def Let_def
        bufferAt_def getRealBackBuffer_def roleInvariant_def)
  have drawn: "memory ?s' (currentRefreshBufferPtr ?s' + hwIndex s0 x y) = c"
    if h: "pointersAgree s0 \<and> layerConfigured s0 \<and> inBounds s0 x y \<and> drawPixel s0 x y c = Inr s"
    for s0 x y c
  proof -
    have s: "s = s0\<lparr>memory := (memory s0)(currentDrawBufferPtr s0 + hwIndex s0 x y := c)\<rparr>"
      using h drawPixel_inBounds [of s0 x y c] by simp
    have g: "getRealBackBuffer s = currentDrawBufferPtr s0"
      using h by (simp add: s getRealBackBuffer_def pointersAgree_def bufferAt_def)
    have m: "memory s (currentDrawBufferPtr s0 + hwIndex s0 x y) = c"
      by (simp add: s)
    have "memory ?s' (currentRefreshBufferPtr ?s' + hwIndex s0 x y) =
          memory s (getRealBackBuffer s + hwIndex s0 x y)"
      using main by blast
    then show ?thesis by (simp only: g m)
  qed
  show ?thesis
    unfolding Let_def using main drawn by blast
qed

theorem swap_exchanges_roles_witness:
  "\<not> swapPending demoLayer \<and> roleInvariant demoLayer \<and>
   pointersAgree demoLayer \<and> layerConfigured demoLayer \<and> inBounds demoLayer 1 0 \<and>
   drawPixel
     (demoLayer\<lparr>memory := (\<lambda>a. if a = 4 then \<lparr>red = 10, green = 20, blue = 30\<rparr>
                                  else \<lparr>red = 0, green = 0, blue = 0\<rparr>)\<rparr>)
     1 0 \<lparr>red = 1, green = 2, blue = 3\<rparr> = Inr demoLayer \<and>
   currentRefreshBuffer (handleBufferSwap (swapBuffers False demoLayer)) = 0 \<and>
   currentDrawBuffer (handleBufferSwap (swapBuffers False demoLayer)) = 1 \<and>
   currentRefreshBufferPtr (handleBufferSwap (swapBuffers False demoLayer)) = 0 \<and>
   currentDrawBufferPtr (handleBufferSwap (swapBuffers False demoLayer)) = 4 \<and>
   memory (handleBufferSwap (swapBuffers False demoLayer))
     (currentRefreshBufferPtr (handleBufferSwap (swapBuffers False demoLayer)) + 1) =
     \<lparr>red = 1, green = 2, blue = 3\<rparr>"
proof -
  have h1: "\<not> swapPending demoLayer"
    by (simp add: demoLayer_def)
  have h2: "roleInvariant demoLayer"
    by (simp add: roleInvariant_def demoLayer_def)
  have h3: "pointersAgree demoLayer \<and> layerConfigured demoLayer \<and> inBounds demoLayer 1 0"
    by (simp add: pointersAgree_def layerConfigured_def inBounds_def bufferAt_def demoLayer_def)
  have h4: "drawPixel
     (demoLayer\<lparr>memory := (\<lambda>a. if a = 4 then \<lparr>red = 10, green = 20, blue = 30\<rparr>
                                  else \<lparr>red = 0, green = 0, blue = 0\<rparr>)\<rparr>)
     1 0 \<lparr>red = 1, green = 2, blue = 3\<rparr> = Inr demoLayer"
    by (simp add: drawPixel_def loadPixelToDrawBuffer_def to_int16_def bufferSize_def
        demoLayer_def fun_eq_iff)
  show ?thesis
    using swap_exchanges_roles [OF h1 h2] h1 h2 h3 h4
    by (simp add: Let_def demoLayer_def swapBuffers_def waitWhileSwapPending_eq
        handleBufferSwap_def bufferAt_def)
qed

section \<open>Horizontal lines\<close>

lemma paint_empty: "paint s (memory s) {} c = s"
  by (simp add: paint_def)

lemma paint_upd: "paint s (m(a := c)) A c = paint s m (insert a A) c"
  by (auto simp: paint_def fun_eq_iff)

lemma forEach_load_paint:
  assumes "matrixWidth s \<le> 32768" "matrixHeight s \<le> 32768"
    and "\<forall>i\<in>set is. 0 \<le> hx i \<and> hx i < int (matrixWidth s) \<and> 0 \<le> hy i \<and> hy i < int (matrixHeight s)"
  shows "forEach is (\<lambda>i s'. loadPixelToDrawBuffer s' (hx i) (hy i) c) (s\<lparr>memory := m\<rparr>) =
           Inr (paint s m ((\<lambda>i. currentDrawBufferPtr s + nat (hy i * int (matrixWidth s) + hx i)) ` set is) c)"
  using assms(3)
proof (induction "is" arbitrary: m)
  case Nil
  then show ?case by (simp add: paint_def)
next
  case (Cons i "is")
  let ?a = "currentDrawBufferPtr s + nat (hy i * int (matrixWidth s) + hx i)"
  have l: "loadPixelToDrawBuffer (s\<lparr>memory := m\<rparr>) (hx i) (hy i) c = Inr (s\<lparr>memory := m(?a := c)\<rparr>)"
    using Cons.prems assms(1,2) by (subst loadPixel_ok) simp_all
  have ih: "forEach is (\<lambda>i s'. loadPixelToDrawBuffer s' (hx i) (hy i) c) (s\<lparr>memory := m(?a := c)\<rparr>) =
           Inr (paint s (m(?a := c)) ((\<lambda>i. currentDrawBufferPtr s + nat (hy i * int (matrixWidth s) + hx i)) ` set is) c)"
    using Cons.prems by (intro Cons.IH) simp
  have "paint s (m(?a := c)) ((\<lambda>i. currentDrawBufferPtr s + nat (hy i * int (matrixWidth s) + hx i)) ` set is) c
      = paint s m ((\<lambda>i. currentDrawBufferPtr s + nat (hy i * int (matrixWidth s) + hx i)) ` set (i # is)) c"
    by (simp add: paint_upd)
  then have p: "paint s (m(?a := c)) ((\<lambda>i. currentDrawBufferPtr s + nat (hy i * int (matrixWidth s) + hx i)) ` set is) c
      = paint s m ((\<lambda>i. currentDrawBufferPtr s + nat (hy i * int (matrixWidth s) + hx i)) ` set (i # is)) c" .
  have "forEach (i # is) (\<lambda>i s'. loadPixelToDrawBuffer s' (hx i) (hy i) c) (s\<lparr>memory := m\<rparr>)
      = forEach is (\<lambda>i s'. loadPixelToDrawBuffer s' (hx i) (hy i) c) (s\<lparr>memory := m(?a := c)\<rparr>)"
    by (simp only: forEach.simps l sum.case)
  then show ?case by (simp only: ih p)
qed

lemma forEach_drawPixel_paint:
  assumes "layerConfigured s" and "0 \<le> y" "y < int (localHeight s)"
  shows "forEach xs (\<lambda>x s'. drawPixel s' x y c) (s\<lparr>memory := m\<rparr>) =
           Inr (paint s m ((\<lambda>x. currentDrawBufferPtr s + hwIndex s x y) `
                   {x \<in> set xs. 0 \<le> x \<and> x < int (localWidth s)}) c)"
proof (induction xs arbitrary: m)
  case Nil
  then show ?case by (simp add: paint_def)
next
  case (Cons x xs)
  let ?f = "\<lambda>x. currentDrawBufferPtr s + hwIndex s x y"
  have cfg: "layerConfigured (s\<lparr>memory := m\<rparr>)"
    using assms(1) by (simp add: layerConfigured_def)
  have same: "hwIndex (s\<lparr>memory := m\<rparr>) x y = hwIndex s x y"
    by (simp add: hwIndex_def hwCoords_def)
  show ?case
  proof (cases "0 \<le> x \<and> x < int (localWidth s)")
    case True
    then have ib: "inBounds (s\<lparr>memory := m\<rparr>) x y"
      using assms by (simp add: inBounds_def)
    have d: "drawPixel (s\<lparr>memory := m\<rparr>) x y c = Inr (s\<lparr>memory := m(?f x := c)\<rparr>)"
      using drawPixel_inBounds [OF cfg ib, of c] same by simp
    have "{x' \<in> set (x # xs). 0 \<le> x' \<and> x' < int (localWidth s)}
        = insert x {x \<in> set xs. 0 \<le> x \<and> x < int (localWidth s)}"
      using True by auto
    then have p: "paint s (m(?f x := c)) (?f ` {x \<in> set xs. 0 \<le> x \<and> x < int (localWidth s)}) c
        = paint s m (?f ` {x' \<in> set (x # xs). 0 \<le> x' \<and> x' < int (localWidth s)}) c"
      by (simp only: paint_upd image_insert)
    have "forEach (x # xs) (\<lambda>x s'. drawPixel s' x y c) (s\<lparr>memory := m\<rparr>)
        = forEach xs (\<lambda>x s'. drawPixel s' x y c) (s\<lparr>memory := m(?f x := c)\<rparr>)"
      by (simp only: forEach.simps d sum.case)
    then show ?thesis by (simp only: Cons.IH p)
  next
    case False
    then have d: "drawPixel (s\<lparr>memory := m\<rparr>) x y c = Inr (s\<lparr>memory := m\<rparr>)"
      by (auto simp: drawPixel_def)
    have "{x' \<in> set (x # xs). 0 \<le> x' \<and> x' < int (localWidth s)}
        = {x \<in> set xs. 0 \<le> x \<and> x < int (localWidth s)}"
      using False by auto
    then show ?thesis using d Cons.IH [of m] by simp
  qed
qed

lemma forEach_drawPixel_outside:
  assumes "y < 0 \<or> y \<ge> int (localHeight s)"
  shows "forEach xs (\<lambda>x s'. drawPixel s' x y c) s = Inr s"
  using assms by (induction xs) (auto simp: drawPixel_def)

lemma self_memory: "s\<lparr>memory := memory s\<rparr> = s"
  by simp

lemma drawHardwareHLine_paint:
  assumes "matrixWidth s \<le> 32768" "matrixHeight s \<le> 32768"
    and "0 \<le> a" "a \<le> b" "b < int (matrixWidth s)" "0 \<le> y" "y < int (matrixHeight s)"
  shows "drawHardwareHLine s a b y c =
           Inr (paint s (memory s)
                 ((\<lambda>i. currentDrawBufferPtr s + nat (y * int (matrixWidth s) + i)) ` {a..b}) c)"
proof -
  have u: "to_uint16 a = a" "to_uint16 b = b" "to_uint16 y = y"
    using assms by (simp_all add: to_uint16_id)
  have "forEach [a..b] (\<lambda>i s'. loadPixelToDrawBuffer s' i y c) (s\<lparr>memory := memory s\<rparr>) =
          Inr (paint s (memory s)
                ((\<lambda>i. currentDrawBufferPtr s + nat (y * int (matrixWidth s) + i)) ` set [a..b]) c)"
    using assms by (intro forEach_load_paint) auto
  then show ?thesis
    by (simp add: drawHardwareHLine_def u)
qed

lemma drawHardwareVLine_paint:
  assumes "matrixWidth s \<le> 32768" "matrixHeight s \<le> 32768"
    and "0 \<le> a" "a \<le> b" "b < int (matrixHeight s)" "0 \<le> x" "x < int (matrixWidth s)"
  shows "drawHardwareVLine s x a b c =
           Inr (paint s (memory s)
                 ((\<lambda>i. currentDrawBufferPtr s + nat (i * int (matrixWidth s) + x)) ` {a..b}) c)"
proof -
  have u: "to_uint16 a = a" "to_uint16 b = b" "to_uint16 x = x"
    using assms by (simp_all add: to_uint16_id)
  have "forEach [a..b] (\<lambda>i s'. loadPixelToDrawBuffer s' x i c) (s\<lparr>memory := memory s\<rparr>) =
          Inr (paint s (memory s)
                ((\<lambda>i. currentDrawBufferPtr s + nat (i * int (matrixWidth s) + x)) ` set [a..b]) c)"
    using assms by (intro forEach_load_paint) auto
  then show ?thesis
    by (simp add: drawHardwareVLine_def u)
qed

lemma reflect_interval: "(\<lambda>x. d - x) ` {a..b} = {d - b..d - (a::int)}"
  by (rule image_diff_atLeastAtMost)

lemma drawFastHLine_le:
  assumes "lo \<le> hi"
  shows "drawFastHLine s lo hi y c =
     (if hi < 0 \<or> lo \<ge> int (localWidth s) \<or> y < 0 \<or> y \<ge> int (localHeight s) then Inr s
      else
        let a = (if lo < 0 then 0 else lo);
            b = (if hi \<ge> int (localWidth s) then to_int16 (int (localWidth s) - 1) else hi)
        in if layerRotation s = rotation0 then drawHardwareHLine s a b y c
           else if layerRotation s = rotation180 then
             drawHardwareHLine s ((int (matrixWidth s) - 1) - b) ((int (matrixWidth s) - 1) - a)
               ((int (matrixHeight s) - 1) - y) c
           else if layerRotation s = rotation90 then
             drawHardwareVLine s ((int (matrixWidth s) - 1) - y) a b c
           else
             drawHardwareVLine s y ((int (matrixHeight s) - 1) - b)
               ((int (matrixHeight s) - 1) - a) c)"
proof -
  have "\<not> hi < lo" using assms by simp
  then show ?thesis
    by (simp only: drawFastHLine_def if_False case_prod_conv Let_def)
qed

lemma drawFastHLine_ordered:
  assumes cfg: "layerConfigured s" and le: "lo \<le> hi"
  shows "drawFastHLine s lo hi y c = drawPixels s [lo..hi] y c"
proof (cases "y < 0 \<or> y \<ge> int (localHeight s)")
  case True
  then have "drawFastHLine s lo hi y c = Inr s"
    unfolding drawFastHLine_le [OF le] by auto
  then show ?thesis
    using True by (simp add: drawPixels_def forEach_drawPixel_outside)
next
  case yin: False
  let ?W = "int (matrixWidth s)" and ?H = "int (matrixHeight s)" and ?LW = "int (localWidth s)"
  let ?f = "\<lambda>x. currentDrawBufferPtr s + hwIndex s x y"
  have rhs: "drawPixels s [lo..hi] y c =
      Inr (paint s (memory s) (?f ` {x \<in> {lo..hi}. 0 \<le> x \<and> x < ?LW}) c)"
    using forEach_drawPixel_paint [OF cfg, of y "[lo..hi]" c "memory s"] yin
    by (simp add: drawPixels_def)
  show ?thesis
  proof (cases "hi < 0 \<or> lo \<ge> ?LW")
    case True
    then have e: "{x \<in> {lo..hi}. 0 \<le> x \<and> x < ?LW} = {}" by auto
    have r: "drawPixels s [lo..hi] y c = Inr s"
      using rhs by (simp only: e image_empty paint_empty)
    have l: "drawFastHLine s lo hi y c = Inr s"
      unfolding drawFastHLine_le [OF le] using True by auto
    show ?thesis by (simp only: l r)
  next
    case xin: False
    define a where "a = (if lo < 0 then 0 else lo)"
    define b where "b = (if hi \<ge> ?LW then ?LW - 1 else hi)"
    have lw: "0 < ?LW" "?LW \<le> 32768"
      using cfg by (auto simp: layerConfigured_def split: if_splits)
    have ab: "0 \<le> a" "a \<le> b" "b < ?LW"
      using xin le lw by (auto simp: a_def b_def)
    have set_eq: "{x \<in> {lo..hi}. 0 \<le> x \<and> x < ?LW} = {a..b}"
      by (auto simp: a_def b_def)
    have t16: "to_int16 (?LW - 1) = ?LW - 1"
      using lw by (intro to_int16_id) auto
    have wh: "matrixWidth s \<le> 32768" "matrixHeight s \<le> 32768"
      using cfg by (auto simp: layerConfigured_def)
    have lhs: "drawFastHLine s lo hi y c =
        (if layerRotation s = rotation0 then drawHardwareHLine s a b y c
         else if layerRotation s = rotation180 then
           drawHardwareHLine s ((?W - 1) - b) ((?W - 1) - a) ((?H - 1) - y) c
         else if layerRotation s = rotation90 then
           drawHardwareVLine s ((?W - 1) - y) a b c
         else drawHardwareVLine s y ((?H - 1) - b) ((?H - 1) - a) c)"
      unfolding drawFastHLine_le [OF le] using xin yin by (simp add: a_def b_def t16 Let_def)
    show ?thesis
    proof (cases "layerRotation s")
      case rotation0
      then have dims: "?LW = ?W" "int (localHeight s) = ?H"
        using cfg by (auto simp: layerConfigured_def)
      have l: "drawFastHLine s lo hi y c = drawHardwareHLine s a b y c"
        using lhs rotation0 by simp
      have p: "drawHardwareHLine s a b y c =
          Inr (paint s (memory s) ((\<lambda>i. currentDrawBufferPtr s + nat (y * ?W + i)) ` {a..b}) c)"
        using ab yin dims wh by (intro drawHardwareHLine_paint) auto
      have e: "(\<lambda>i. currentDrawBufferPtr s + nat (y * ?W + i)) ` {a..b} = ?f ` {a..b}"
        using rotation0 by (simp add: hwIndex_def hwCoords_def)
      show ?thesis by (simp only: l p e rhs set_eq)
    next
      case rotation180
      then have dims: "?LW = ?W" "int (localHeight s) = ?H"
        using cfg by (auto simp: layerConfigured_def)
      have l: "drawFastHLine s lo hi y c =
          drawHardwareHLine s ((?W - 1) - b) ((?W - 1) - a) ((?H - 1) - y) c"
        using lhs rotation180 by simp
      have p: "drawHardwareHLine s ((?W - 1) - b) ((?W - 1) - a) ((?H - 1) - y) c =
          Inr (paint s (memory s) ((\<lambda>i. currentDrawBufferPtr s + nat (((?H - 1) - y) * ?W + i)) `
                 {(?W - 1) - b..(?W - 1) - a}) c)"
        using ab yin dims wh by (intro drawHardwareHLine_paint) auto
      have e: "(\<lambda>i. currentDrawBufferPtr s + nat (((?H - 1) - y) * ?W + i)) ` {(?W - 1) - b..(?W - 1) - a}
          = ?f ` {a..b}"
        using rotation180
        by (simp only: reflect_interval [symmetric] image_image)
           (simp add: hwIndex_def hwCoords_def)
      show ?thesis by (simp only: l p e rhs set_eq)
    next
      case rotation90
      then have dims: "?LW = ?H" "int (localHeight s) = ?W"
        using cfg by (auto simp: layerConfigured_def)
      have l: "drawFastHLine s lo hi y c = drawHardwareVLine s ((?W - 1) - y) a b c"
        using lhs rotation90 by simp
      have p: "drawHardwareVLine s ((?W - 1) - y) a b c =
          Inr (paint s (memory s) ((\<lambda>i. currentDrawBufferPtr s + nat (i * ?W + ((?W - 1) - y))) ` {a..b}) c)"
        using ab yin dims wh by (intro drawHardwareVLine_paint) auto
      have e: "(\<lambda>i. currentDrawBufferPtr s + nat (i * ?W + ((?W - 1) - y))) ` {a..b} = ?f ` {a..b}"
        using rotation90 by (simp add: hwIndex_def hwCoords_def)
      show ?thesis by (simp only: l p e rhs set_eq)
    next
      case rotation270
      then have dims: "?LW = ?H" "int (localHeight s) = ?W"
        using cfg by (auto simp: layerConfigured_def)
      have l: "drawFastHLine s lo hi y c =
          drawHardwareVLine s y ((?H - 1) - b) ((?H - 1) - a) c"
        using lhs rotation270 by simp
      have p: "drawHardwareVLine s y ((?H - 1) - b) ((?H - 1) - a) c =
          Inr (paint s (memory s) ((\<lambda>i. currentDrawBufferPtr s + nat (i * ?W + y)) `
                 {(?H - 1) - b..(?H - 1) - a}) c)"
        using ab yin dims wh by (intro drawHardwareVLine_paint) auto
      have e: "(\<lambda>i. currentDrawBufferPtr s + nat (i * ?W + y)) ` {(?H - 1) - b..(?H - 1) - a}
          = ?f ` {a..b}"
        using rotation270
        by (simp only: reflect_interval [symmetric] image_image)
           (simp add: hwIndex_def hwCoords_def)
      show ?thesis by (simp only: l p e rhs set_eq)
    qed
  qed
qed

text \<open>
  Claim C10. In a configured layer, under each of the four rotations and for all
  endpoints and rows, \<open>drawFastHLine(x0, x1, y, color)\<close> has the effect of
  \<open>drawPixel(x, y, color)\<close> called for every \<open>x\<close> from \<open>min x0 x1\<close> to
  \<open>max x0 x1\<close>: the same final state, with the same clipping.
\<close>

theorem drawFastHLine_as_drawPixel:
  assumes "layerConfigured s"
  shows "drawFastHLine s x0 x1 y c = drawPixels s [min x0 x1 .. max x0 x1] y c"
proof (cases "x1 < x0")
  case True
  have "drawFastHLine s x0 x1 y c = drawFastHLine s x1 x0 y c"
    using True by (simp add: drawFastHLine_def)
  also have "\<dots> = drawPixels s [x1..x0] y c"
    using True by (intro drawFastHLine_ordered [OF assms]) simp
  finally show ?thesis using True by (simp add: min_def max_def)
next
  case False
  then show ?thesis
    using drawFastHLine_ordered [OF assms, of x0 x1 y c] by (simp add: min_def max_def)
qed

theorem drawFastHLine_as_drawPixel_witness:
  "layerConfigured (demoLayer\<lparr>layerRotation := rotation180\<rparr>) \<and>
   drawFastHLine (demoLayer\<lparr>layerRotation := rotation180\<rparr>) 5 (-1) 1 \<lparr>red = 7, green = 8, blue = 9\<rparr> =
   drawPixels (demoLayer\<lparr>layerRotation := rotation180\<rparr>) [-1, 0, 1, 2, 3, 4, 5] 1 \<lparr>red = 7, green = 8, blue = 9\<rparr>"
proof -
  let ?d = "demoLayer\<lparr>layerRotation := rotation180\<rparr>"
  have h: "layerConfigured ?d"
    by (simp add: layerConfigured_def demoLayer_def)
  have u: "[min 5 (-1) .. max 5 (-1::int)] = [-1, 0, 1, 2, 3, 4, 5]"
    by code_simp
  show ?thesis
    using drawFastHLine_as_drawPixel [OF h, of 5 "-1" 1 "\<lparr>red = 7, green = 8, blue = 9\<rparr>"] h
    by (simp only: u simp_thms)
qed

section \<open>The compositor\<close>

lemma upto_0_1: "[0..(1::int)] = [0, 1]"
  by (simp add: upto.simps)

lemma fillRefreshRow24_demoLayer:
  "fillRefreshRow24 ops demoLayer 0 [d0, d1] 0 =
     Inr [assignRow ops \<lparr>red = 10, green = 20, blue = 30\<rparr>, d1]"
  by (simp add: fillRefreshRow24_def demoLayer_def upto_0_1 bindE_def refreshPixel_def
      bufferSize_def shiftedPixel_def shiftLeft_def storeRow_def)


lemma forEach_nth_preserved:
  assumes "forEach js body row = Inr row'"
    and "\<And>j r r'. j \<in> set js \<Longrightarrow> body j r = Inr r' \<Longrightarrow> r' ! i = r ! i"
  shows "row' ! i = row ! i"
  using assms
proof (induction js arbitrary: row)
  case Nil
  then show ?case by simp
next
  case (Cons j js)
  from Cons.prems(1) obtain r1 where b: "body j row = Inr r1" and f: "forEach js body r1 = Inr row'"
    by (auto split: sum.splits)
  have "row' ! i = r1 ! i"
    using f Cons.prems(2) by (intro Cons.IH) auto
  moreover have "r1 ! i = row ! i"
    using b Cons.prems(2) by auto
  ultimately show ?case by simp
qed

lemma storeRow_other:
  assumes "storeRow r j f = Inr r'" and "j \<noteq> int i"
  shows "r' ! i = r ! i"
  using assms by (auto simp: storeRow_def split: if_splits)


lemma fillRefreshRow48_early:
  assumes "backgroundBrightness s = 0 \<or>
    (chromaKeyEnabled s \<and> (int hardwareY < firstOverlayLine s \<or> int hardwareY > lastOverlayLine s))"
  shows "fillRefreshRow48 ops s hardwareY row n = Inr row"
proof (cases "backgroundBrightness s = 0")
  case True
  then show ?thesis by (simp add: fillRefreshRow48_def)
next
  case False
  then have "chromaKeyEnabled s \<and> (int hardwareY < firstOverlayLine s \<or> int hardwareY > lastOverlayLine s)"
    using assms by simp
  then show ?thesis by (simp only: fillRefreshRow48_def if_True if_False simp_thms split: if_split)
qed

lemma fillRefreshRow24_early:
  assumes "backgroundBrightness s = 0 \<or>
    (chromaKeyEnabled s \<and> (int hardwareY < firstOverlayLine s \<or> int hardwareY > lastOverlayLine s))"
  shows "fillRefreshRow24 ops s hardwareY row n = Inr row"
proof (cases "backgroundBrightness s = 0")
  case True
  then show ?thesis by (simp add: fillRefreshRow24_def)
next
  case False
  then have "chromaKeyEnabled s \<and> (int hardwareY < firstOverlayLine s \<or> int hardwareY > lastOverlayLine s)"
    using assms by simp
  then show ?thesis by (simp only: fillRefreshRow24_def if_True if_False simp_thms split: if_split)
qed

lemma fill48_chroma:
  assumes en: "chromaKeyEnabled s"
    and px: "refreshPixel s hardwareY (int i) = Inr (chromaKeyColor s)"
    and run: "fillRefreshRow48 ops s hardwareY row n = Inr r"
  shows "r ! i = row ! i"
proof (cases "backgroundBrightness s = 0 \<or>
    (int hardwareY < firstOverlayLine s \<or> int hardwareY > lastOverlayLine s)")
  case True
  then have "fillRefreshRow48 ops s hardwareY row n = Inr row"
    using en by (intro fillRefreshRow48_early) auto
  then show ?thesis using run by simp
next
  case False
  show ?thesis
  proof (cases "ccEnabled s")
    case True
    let ?body = "\<lambda>i row.
          bindE (refreshPixel s hardwareY i) (\<lambda>currentPixel.
            if chromaKeyEnabled s \<and> currentPixel = chromaKeyColor s then Inr row
            else
              bindE (correctedPixel ops (backgroundColorCorrectionLUT s) currentPixel n)
                (\<lambda>newPixel.
                  storeRow row i (\<lambda>d. blendNormalised ops d newPixel (backgroundBrightness s))))"
    have "forEach [0 .. int (matrixWidth s) - 1] ?body row = Inr r"
      using run False True en by (simp add: fillRefreshRow48_def)
    moreover have "r' ! i = r0 ! i" if "?body j r0 = Inr r'" for j r0 r'
    proof (cases "j = int i")
      case True
      then show ?thesis using that px en by (simp add: bindE_def)
    next
      case False
      then show ?thesis
        using that by (auto simp: bindE_def split: sum.splits if_splits dest: storeRow_other)
    qed
    ultimately show ?thesis by (rule forEach_nth_preserved)
  next
    case cc: False
    let ?body = "\<lambda>i row.
          bindE (refreshPixel s hardwareY i) (\<lambda>currentPixel.
            if chromaKeyEnabled s \<and> currentPixel = chromaKeyColor s then Inr row
            else
              let newPixel = shiftedPixel currentPixel n
              in storeRow row i (\<lambda>d. blend ops d newPixel (backgroundBrightness s)))"
    have "forEach [0 .. int (matrixWidth s) - 1] ?body row = Inr r"
      using run False cc en by (simp add: fillRefreshRow48_def)
    moreover have "r' ! i = r0 ! i" if "?body j r0 = Inr r'" for j r0 r'
    proof (cases "j = int i")
      case True
      then show ?thesis using that px en by (simp add: bindE_def)
    next
      case False
      then show ?thesis
        using that by (auto simp: bindE_def Let_def split: sum.splits if_splits dest: storeRow_other)
    qed
    ultimately show ?thesis by (rule forEach_nth_preserved)
  qed
qed

lemma fill24_chroma:
  assumes en: "chromaKeyEnabled s"
    and px: "refreshPixel s hardwareY (int i) = Inr (chromaKeyColor s)"
    and run: "fillRefreshRow24 ops s hardwareY row n = Inr r"
  shows "r ! i = row ! i"
proof (cases "backgroundBrightness s = 0 \<or>
    (int hardwareY < firstOverlayLine s \<or> int hardwareY > lastOverlayLine s)")
  case True
  then have "fillRefreshRow24 ops s hardwareY row n = Inr row"
    using en by (intro fillRefreshRow24_early) auto
  then show ?thesis using run by simp
next
  case False
  show ?thesis
  proof (cases "ccEnabled s")
    case True
    let ?body = "\<lambda>i row.
          bindE (refreshPixel s hardwareY i) (\<lambda>currentPixel.
            if chromaKeyEnabled s \<and> currentPixel = chromaKeyColor s then Inr row
            else
              bindE (correctedPixel ops (backgroundColorCorrectionLUT s) currentPixel n)
                (\<lambda>newPixel.
                  if backgroundBrightness s = 255
                  then storeRow row i (\<lambda>d. assignRow ops newPixel)
                  else storeRow row i (\<lambda>d. blend ops d newPixel (backgroundBrightness s))))"
    have "forEach [0 .. int (matrixWidth s) - 1] ?body row = Inr r"
      using run False True en by (simp add: fillRefreshRow24_def)
    moreover have "r' ! i = r0 ! i" if "?body j r0 = Inr r'" for j r0 r'
    proof (cases "j = int i")
      case True
      then show ?thesis using that px en by (simp add: bindE_def)
    next
      case False
      then show ?thesis
        using that by (auto simp: bindE_def split: sum.splits if_splits dest: storeRow_other)
    qed
    ultimately show ?thesis by (rule forEach_nth_preserved)
  next
    case cc: False
    let ?body = "\<lambda>i row.
          bindE (refreshPixel s hardwareY i) (\<lambda>currentPixel.
            if chromaKeyEnabled s \<and> currentPixel = chromaKeyColor s then Inr row
            else
              let newPixel = shiftedPixel currentPixel n
              in if backgroundBrightness s = 255
                 then storeRow row i (\<lambda>d. assignRow ops newPixel)
                 else storeRow row i (\<lambda>d. blend ops d newPixel (backgroundBrightness s)))"
    have "forEach [0 .. int (matrixWidth s) - 1] ?body row = Inr r"
      using run False cc en by (simp add: fillRefreshRow24_def)
    moreover have "r' ! i = r0 ! i" if "?body j r0 = Inr r'" for j r0 r'
    proof (cases "j = int i")
      case True
      then show ?thesis using that px en by (simp add: bindE_def)
    next
      case False
      then show ?thesis
        using that by (auto simp: bindE_def Let_def split: sum.splits if_splits dest: storeRow_other)
    qed
    ultimately show ?thesis by (rule forEach_nth_preserved)
  qed
qed

text \<open>
  Claim C6. With chroma keying enabled, both overloads of \<open>fillRefreshRow\<close> return
  the output row as it was when \<open>hardwareY\<close> is below \<open>firstOverlayLine\<close> or above
  \<open>lastOverlayLine\<close>, whatever the buffer, the table and the row hold (the loop is
  not entered); and whenever they return a row, every column whose pixel in the
  refresh buffer equals the chroma key color holds what it held before.
\<close>

theorem chroma_key_transparent:
  assumes "chromaKeyEnabled s"
  shows "(int hardwareY < firstOverlayLine s \<or> int hardwareY > lastOverlayLine s \<longrightarrow>
            fillRefreshRow48 ops48 s hardwareY row48 n = Inr row48 \<and>
            fillRefreshRow24 ops24 s hardwareY row24 n = Inr row24) \<and>
         (\<forall>i r. refreshPixel s hardwareY (int i) = Inr (chromaKeyColor s) \<and>
                fillRefreshRow48 ops48 s hardwareY row48 n = Inr r \<longrightarrow> r ! i = row48 ! i) \<and>
         (\<forall>i r. refreshPixel s hardwareY (int i) = Inr (chromaKeyColor s) \<and>
                fillRefreshRow24 ops24 s hardwareY row24 n = Inr r \<longrightarrow> r ! i = row24 ! i)"
proof (intro conjI impI allI)
  assume "int hardwareY < firstOverlayLine s \<or> int hardwareY > lastOverlayLine s"
  then show "fillRefreshRow48 ops48 s hardwareY row48 n = Inr row48"
    and "fillRefreshRow24 ops24 s hardwareY row24 n = Inr row24"
    using assms by (simp_all add: fillRefreshRow48_early fillRefreshRow24_early)
next
  fix i r
  assume "refreshPixel s hardwareY (int i) = Inr (chromaKeyColor s) \<and>
          fillRefreshRow48 ops48 s hardwareY row48 n = Inr r"
  then show "r ! i = row48 ! i"
    using fill48_chroma [OF assms] by blast
next
  fix i r
  assume "refreshPixel s hardwareY (int i) = Inr (chromaKeyColor s) \<and>
          fillRefreshRow24 ops24 s hardwareY row24 n = Inr r"
  then show "r ! i = row24 ! i"
    using fill24_chroma [OF assms] by blast
qed

theorem chroma_key_transparent_witness:
  "chromaKeyEnabled demoLayer \<and>
   refreshPixel demoLayer 0 (int 1) = Inr (chromaKeyColor demoLayer) \<and>
   fillRefreshRow24 demoOps24 demoLayer 0
       [\<lparr>red = 5, green = 5, blue = 5\<rparr>, \<lparr>red = 6, green = 6, blue = 6\<rparr>] 0 =
     Inr [\<lparr>red = 10, green = 20, blue = 30\<rparr>, \<lparr>red = 6, green = 6, blue = 6\<rparr>] \<and>
   fillRefreshRow24 demoOps24 demoLayer 2
       [\<lparr>red = 5, green = 5, blue = 5\<rparr>, \<lparr>red = 6, green = 6, blue = 6\<rparr>] 0 =
     Inr [\<lparr>red = 5, green = 5, blue = 5\<rparr>, \<lparr>red = 6, green = 6, blue = 6\<rparr>] \<and>
   fillRefreshRow48 demoOps48 demoLayer 2
       [\<lparr>red = 5, green = 5, blue = 5\<rparr>, \<lparr>red = 6, green = 6, blue = 6\<rparr>] 0 =
     Inr [\<lparr>red = 5, green = 5, blue = 5\<rparr>, \<lparr>red = 6, green = 6, blue = 6\<rparr>]"
proof -
  have h: "chromaKeyEnabled demoLayer"
    by (simp add: demoLayer_def)
  have p: "refreshPixel demoLayer 0 (int 1) = Inr (chromaKeyColor demoLayer)"
    by (simp add: refreshPixel_def bufferSize_def demoLayer_def)
  have f: "fillRefreshRow24 demoOps24 demoLayer 0
       [\<lparr>red = 5, green = 5, blue = 5\<rparr>, \<lparr>red = 6, green = 6, blue = 6\<rparr>] 0 =
     Inr [\<lparr>red = 10, green = 20, blue = 30\<rparr>, \<lparr>red = 6, green = 6, blue = 6\<rparr>]"
    by (simp add: fillRefreshRow24_demoLayer demoOps24_def)
  have o: "int 2 > lastOverlayLine demoLayer"
    by (simp add: demoLayer_def)
  show ?thesis
    using chroma_key_transparent [OF h, of 2 demoOps48 _ 0 demoOps24] h p f o
    by simp
qed

text \<open>
  Claim C9. With \<open>backgroundBrightness = 0\<close>, both overloads of \<open>fillRefreshRow\<close>
  return the output row as it was, for every \<open>hardwareY\<close> and every
  \<open>brightnessShifts\<close>.
\<close>

theorem zero_brightness_noop:
  assumes "backgroundBrightness s = 0"
  shows "fillRefreshRow48 ops48 s hardwareY row48 n = Inr row48 \<and>
         fillRefreshRow24 ops24 s hardwareY row24 n = Inr row24"
  using assms by (simp add: fillRefreshRow48_early fillRefreshRow24_early)

theorem zero_brightness_noop_witness:
  "backgroundBrightness (demoLayer\<lparr>backgroundBrightness := 0\<rparr>) = 0 \<and>
   fillRefreshRow48 demoOps48 (demoLayer\<lparr>backgroundBrightness := 0\<rparr>) 0
       [\<lparr>red = 5, green = 5, blue = 5\<rparr>, \<lparr>red = 6, green = 6, blue = 6\<rparr>] 0 =
     Inr [\<lparr>red = 5, green = 5, blue = 5\<rparr>, \<lparr>red = 6, green = 6, blue = 6\<rparr>] \<and>
   fillRefreshRow24 demoOps24 (demoLayer\<lparr>backgroundBrightness := 0\<rparr>) 0
       [\<lparr>red = 5, green = 5, blue = 5\<rparr>, \<lparr>red = 6, green = 6, blue = 6\<rparr>] 0 =
     Inr [\<lparr>red = 5, green = 5, blue = 5\<rparr>, \<lparr>red = 6, green = 6, blue = 6\<rparr>]"
proof -
  have h: "backgroundBrightness (demoLayer\<lparr>backgroundBrightness := 0\<rparr>) = 0"
    by simp
  show ?thesis
    using zero_brightness_noop [OF h] h by simp
qed




lemma lutIndex_shift0_narrow:
  fixes c :: "8 word"
  shows "0 \<le> lutIndex TYPE(8) (uint c) 0 \<and> lutIndex TYPE(8) (uint c) 0 < int (lutEntries TYPE(8))"
proof -
  have "uint c < 2 ^ LENGTH(8)" by (rule uint_lt2p)
  then show ?thesis
    by (simp add: lutIndex_def lutEntries_def sizeofRGB_def shiftLeft_def)
qed

lemma lutIndex_shift0_wide:
  fixes c :: "16 word"
  shows "0 \<le> lutIndex TYPE(16) (uint c) 0 \<and> lutIndex TYPE(16) (uint c) 0 < int (lutEntries TYPE(16))"
proof -
  have "uint c < 2 ^ LENGTH(16)" by (rule uint_lt2p)
  then have "uint c < 65536" by simp
  then have "uint c div 16 < 4096" by simp
  then show ?thesis
    by (simp add: lutIndex_def lutEntries_def sizeofRGB_def shiftRight_def pos_imp_zdiv_nonneg_iff)
qed

text \<open>
  Without color correction no table is read, and \<open>fillRefreshRow\<close> returns a row
  for every line of the matrix and every output row of at least \<open>matrixWidth\<close>
  elements.
\<close>

lemma forEach_returns:
  assumes "\<And>j r. j \<in> set js \<Longrightarrow> P r \<Longrightarrow> \<exists>r'. body j r = Inr r' \<and> P r'"
    and "P row"
  shows "\<exists>r. forEach js body row = Inr r \<and> P r"
  using assms
proof (induction js arbitrary: row)
  case Nil
  then show ?case by simp
next
  case (Cons j js)
  from Cons.prems obtain r1 where b: "body j row = Inr r1" and p: "P r1"
    by (meson list.set_intros(1))
  have "\<exists>r. forEach js body r1 = Inr r \<and> P r"
    using Cons.prems(1) p by (intro Cons.IH) auto
  then show ?case using b by simp
qed

lemma refreshPixel_returns:
  assumes "hardwareY < matrixHeight s" and "0 \<le> j" and "j < int (matrixWidth s)"
  shows "\<exists>p. refreshPixel s hardwareY j = Inr p"
proof -
  have "hardwareY * matrixWidth s + nat j < hardwareY * matrixWidth s + matrixWidth s"
    using assms by simp
  also have "\<dots> = Suc hardwareY * matrixWidth s" by simp
  also have "\<dots> \<le> matrixHeight s * matrixWidth s"
    using assms(1) by (intro mult_le_mono1) simp
  finally show ?thesis
    using assms(2) by (simp add: refreshPixel_def bufferSize_def mult.commute)
qed

lemma fillRefreshRow24_returns:
  assumes "\<not> ccEnabled s" and "hardwareY < matrixHeight s" and "matrixWidth s \<le> length row"
  shows "\<exists>r. fillRefreshRow24 ops s hardwareY row n = Inr r \<and> length r = length row"
proof -
  let ?body = "\<lambda>i row.
          bindE (refreshPixel s hardwareY i) (\<lambda>currentPixel.
            if chromaKeyEnabled s \<and> currentPixel = chromaKeyColor s then Inr row
            else
              let newPixel = shiftedPixel currentPixel n
              in if backgroundBrightness s = 255
                 then storeRow row i (\<lambda>d. assignRow ops newPixel)
                 else storeRow row i (\<lambda>d. blend ops d newPixel (backgroundBrightness s)))"
  have step: "\<exists>r'. ?body j r = Inr r' \<and> length r' = length row"
    if "j \<in> set [0 .. int (matrixWidth s) - 1]" "length r = length row" for j r
  proof -
    have j: "0 \<le> j" "j < int (matrixWidth s)" using that(1) by auto
    obtain p where p: "refreshPixel s hardwareY j = Inr p"
      using refreshPixel_returns [OF assms(2) j] by blast
    have "nat j < length r" using j assms(3) that(2) by simp
    then show ?thesis
      using p j that(2) by (simp add: bindE_def storeRow_def Let_def)
  qed
  have "\<exists>r. forEach [0 .. int (matrixWidth s) - 1] ?body row = Inr r \<and> length r = length row"
    using step by (intro forEach_returns [where P = "\<lambda>r. length r = length row"]) auto
  moreover have "fillRefreshRow24 ops s hardwareY row n = Inr row \<or>
      fillRefreshRow24 ops s hardwareY row n = forEach [0 .. int (matrixWidth s) - 1] ?body row"
    using assms(1) by (simp add: fillRefreshRow24_def)
  ultimately show ?thesis by auto
qed


subsection \<open>Full brightness in the two overloads\<close>

lemma mixChannel_255: "mixChannel d n 255 = n"
  by (simp add: mixChannel_def)


lemma fullOpacityExact_demoOps24: "fullOpacityExact demoOps24"
  by (simp add: fullOpacityExact_def demoOps24_def mixChannel_255)




subsection \<open>The table index\<close>

text \<open>
  Claim C4. With \<open>brightnessShifts = 0\<close> the index stays inside the table for every
  channel value (lemmas \<open>lutIndex_shift0_narrow\<close> and \<open>lutIndex_shift0_wide\<close>
  above). With a shift count of 1, which is within 0 to 4, it does not: the 8-bit
  channel value 255 gives index 510 for a table of 256 entries, the 16-bit channel
  value 65535 gives index 8191 for a table of 4096 entries, and \<open>fillRefreshRow\<close> on
  a white 24-bit pixel with the table of 256 entries reads outside the table.
\<close>

theorem lut_index_outside_table:
  "lutIndex TYPE(8) (uint (255 :: 8 word)) 1 = 510 \<and> lutEntries TYPE(8) = 256 \<and>
   lutIndex TYPE(16) (uint (65535 :: 16 word)) 1 = 8191 \<and> lutEntries TYPE(16) = 4096 \<and>
   length (backgroundColorCorrectionLUT demoLayer) = lutEntries TYPE(8) \<and>
   fillRefreshRow24 ops
     (demoLayer\<lparr>ccEnabled := True, memory := (\<lambda>a. \<lparr>red = 255, green = 255, blue = 255\<rparr>)\<rparr>)
     0 [d0, d1] 1 = Inl OutOfBounds"
proof (intro conjI)
  show "lutIndex TYPE(8) (uint (255 :: 8 word)) 1 = 510"
    by (simp add: lutIndex_def sizeofRGB_def shiftLeft_def)
  show "lutEntries TYPE(8) = 256"
    by (simp add: lutEntries_def sizeofRGB_def)
  show "lutIndex TYPE(16) (uint (65535 :: 16 word)) 1 = 8191"
    by (simp add: lutIndex_def sizeofRGB_def shiftRight_def)
  show "lutEntries TYPE(16) = 4096"
    by (simp add: lutEntries_def sizeofRGB_def)
  show "length (backgroundColorCorrectionLUT demoLayer) = lutEntries TYPE(8)"
    by (simp add: demoLayer_def lutEntries_def sizeofRGB_def)
  show "fillRefreshRow24 ops
     (demoLayer\<lparr>ccEnabled := True, memory := (\<lambda>a. \<lparr>red = 255, green = 255, blue = 255\<rparr>)\<rparr>)
     0 [d0, d1] 1 = Inl OutOfBounds"
    by (simp add: fillRefreshRow24_def demoLayer_def upto_0_1 bindE_def refreshPixel_def
        bufferSize_def correctedPixel_def lutIndex_def sizeofRGB_def lutAt_def shiftLeft_def
        storeRow_def)
qed

end
